theory Spec2Isabelle
  imports Main "HOL-Library.Sublist"
begin

section \<open>JavaScript values and string helpers\<close>

text \<open>
  The tools work on untyped JSON data (\<^verbatim>\<open>Record<string, unknown>\<close>). A value is one
  of the JavaScript value kinds that such data can hold. An object is an association
  list in property order; keys of one object are unique. Numbers are the integers
  (rendered in decimal), strings are sequences of code units.
\<close>

datatype jsval =
    Undefined
  | Null
  | Bool bool
  | Num int
  | Str string
  | Arr "jsval list"
  | Obj "(string \<times> jsval) list"

text \<open>\<^verbatim>\<open>if (v)\<close>: the falsy values are undefined, null, false, 0 and the empty string.\<close>

fun truthy :: "jsval \<Rightarrow> bool" where
  "truthy Undefined = False"
| "truthy Null = False"
| "truthy (Bool b) = b"
| "truthy (Num n) = (n \<noteq> 0)"
| "truthy (Str s) = (s \<noteq> [])"
| "truthy (Arr xs) = True"
| "truthy (Obj m) = True"

text \<open>\<^verbatim>\<open>typeof v === 'object' && v !== null\<close>: objects and arrays.\<close>

fun is_object :: "jsval \<Rightarrow> bool" where
  "is_object (Arr xs) = True"
| "is_object (Obj m) = True"
| "is_object v = False"

text \<open>
  Property access \<^verbatim>\<open>v.key\<close> and \<^verbatim>\<open>v?.key\<close> for the fixed property names the tools read
  (\<^verbatim>\<open>type\<close>, \<^verbatim>\<open>properties\<close>, \<^verbatim>\<open>mappings\<close>, \<^verbatim>\<open>name\<close>, \<^verbatim>\<open>message\<close>): an own property of an
  object, otherwise undefined. None of these names is a member of \<^verbatim>\<open>Object.prototype\<close>, so
  nothing is inherited under them. (The computed access \<^verbatim>\<open>value[part]\<close> of the export tool
  is \<open>read_member\<close> below.)
\<close>

fun get_prop :: "jsval \<Rightarrow> string \<Rightarrow> jsval" where
  "get_prop (Obj m) key = (case map_of m key of None \<Rightarrow> Undefined | Some v \<Rightarrow> v)"
| "get_prop v key = Undefined"

text \<open>Decimal rendering of a number, as \<^verbatim>\<open>String(n)\<close> gives for an integer.\<close>

definition digit_char :: "nat \<Rightarrow> char" where
  "digit_char d = char_of (48 + d)"

fun show_nat :: "nat \<Rightarrow> string" where
  "show_nat n = (if n < 10 then [digit_char n] else show_nat (n div 10) @ [digit_char (n mod 10)])"

declare show_nat.simps [simp del]

definition show_int :: "int \<Rightarrow> string" where
  "show_int i = (if i < 0 then CHR ''-'' # show_nat (nat (- i)) else show_nat (nat i))"

text \<open>\<^verbatim>\<open>Array.prototype.join\<close>.\<close>

fun join :: "string \<Rightarrow> string list \<Rightarrow> string" where
  "join sep [] = []"
| "join sep [x] = x"
| "join sep (x # y # ys) = x @ sep @ join sep (y # ys)"

text \<open>\<^verbatim>\<open>String.prototype.split\<close> on a one-character separator: never an empty list.\<close>

fun split_on :: "char \<Rightarrow> string \<Rightarrow> string list" where
  "split_on c [] = [[]]"
| "split_on c (x # xs) =
     (if x = c then [] # split_on c xs
      else (case split_on c xs of
              [] \<Rightarrow> [[x]]
            | w # ws \<Rightarrow> (x # w) # ws))"

text \<open>\<^verbatim>\<open>String.prototype.toLowerCase\<close> on the ASCII letters.\<close>

definition toLowerCase_char :: "char \<Rightarrow> char" where
  "toLowerCase_char c =
     (let n = (of_char c :: nat) in if 65 \<le> n \<and> n \<le> 90 then char_of (n + 32) else c)"

definition toLowerCase :: "string \<Rightarrow> string" where
  "toLowerCase s = map toLowerCase_char s"

text \<open>\<^verbatim>\<open>startsWith\<close>, \<^verbatim>\<open>endsWith\<close> and \<^verbatim>\<open>includes\<close> of strings.\<close>

definition startsWith :: "string \<Rightarrow> string \<Rightarrow> bool" where
  "startsWith s p = prefix p s"

definition endsWith :: "string \<Rightarrow> string \<Rightarrow> bool" where
  "endsWith s p = suffix p s"

fun str_includes :: "string \<Rightarrow> string \<Rightarrow> bool" where
  "str_includes [] p = (p = [])"
| "str_includes (x # xs) p = (prefix p (x # xs) \<or> str_includes xs p)"

text \<open>
  \<^verbatim>\<open>Object.entries\<close>: the own enumerable properties. An array has its indices as keys, a
  string its character positions; the other primitives have none.
\<close>

fun Object_entries :: "jsval \<Rightarrow> (string \<times> jsval) list" where
  "Object_entries (Obj m) = m"
| "Object_entries (Arr xs) = zip (map show_nat [0..<length xs]) xs"
| "Object_entries (Str s) = zip (map show_nat [0..<length s]) (map (\<lambda>c. Str [c]) s)"
| "Object_entries v = []"

definition Object_keys :: "jsval \<Rightarrow> string list" where
  "Object_keys v = map fst (Object_entries v)"

subsection \<open>\<^verbatim>\<open>JSON.stringify\<close>\<close>

text \<open>
  A model of the platform's \<^verbatim>\<open>JSON.stringify\<close> on JSON data. A string is quoted, with the
  quote, the backslash and the control characters escaped. An undefined property is left
  out of an object and rendered \<^verbatim>\<open>null\<close> inside an array. A number stands for an integer
  that a double holds exactly (magnitude below \<^verbatim>\<open>2^53\<close>), which is printed in decimal;
  numbers with a fraction and larger magnitudes, which the platform prints in exponent
  form from \<^verbatim>\<open>1e21\<close> on, are outside this model. The properties of
  \<^verbatim>\<open>extractFieldValue\<close> below do not rest on it: they hold for any serializer.
\<close>

definition hex_char :: "nat \<Rightarrow> char" where
  "hex_char d = (if d < 10 then char_of (48 + d) else char_of (87 + d))"

definition quote_char :: "char \<Rightarrow> string" where
  "quote_char c =
     (let n = (of_char c :: nat) in
      if c = CHR 0x22 then [CHR 0x5C, CHR 0x22]
      else if n = 0x5C then [CHR 0x5C, CHR 0x5C]
      else if n = 8 then [CHR 0x5C, CHR ''b'']
      else if n = 9 then [CHR 0x5C, CHR ''t'']
      else if n = 10 then [CHR 0x5C, CHR ''n'']
      else if n = 12 then [CHR 0x5C, CHR ''f'']
      else if n = 13 then [CHR 0x5C, CHR ''r'']
      else if n < 32 then [CHR 0x5C, CHR ''u'', CHR ''0'', CHR ''0'', hex_char (n div 16), hex_char (n mod 16)]
      else [c])"

definition JSON_quote :: "string \<Rightarrow> string" where
  "JSON_quote s = CHR 0x22 # concat (map quote_char s) @ [CHR 0x22]"

fun JSON_stringify :: "jsval \<Rightarrow> string" where
  "JSON_stringify Undefined = ''null''"
| "JSON_stringify Null = ''null''"
| "JSON_stringify (Bool b) = (if b then ''true'' else ''false'')"
| "JSON_stringify (Num n) = show_int n"
| "JSON_stringify (Str s) = JSON_quote s"
| "JSON_stringify (Arr xs) = ''['' @ join '','' (map JSON_stringify xs) @ '']''"
| "JSON_stringify (Obj m) =
     ''{'' @ join '',''
       (concat (map (\<lambda>(k, v). if v = Undefined then [] else [JSON_quote k @ '':'' @ JSON_stringify v]) m))
     @ ''}''"

subsection \<open>Values read through the prototype chain\<close>

text \<open>
  A computed property access on a plain object also finds the members that the object
  inherits from \<^verbatim>\<open>Object.prototype\<close>. What such an access can yield is therefore a data
  value, a built-in function (given by its name), or \<^verbatim>\<open>Object.prototype\<close> itself.
\<close>

datatype extracted =
    Value jsval
  | Builtin string
  | ObjectPrototype

text \<open>The function-valued members of \<^verbatim>\<open>Object.prototype\<close>; \<^verbatim>\<open>__proto__\<close> is its accessor.\<close>

definition Object_prototype_functions :: "string list" where
  "Object_prototype_functions =
     [''constructor'', ''__defineGetter__'', ''__defineSetter__'', ''hasOwnProperty'',
      ''__lookupGetter__'', ''__lookupSetter__'', ''isPrototypeOf'', ''propertyIsEnumerable'',
      ''toString'', ''valueOf'', ''toLocaleString'']"

definition Object_prototype_members :: "string list" where
  "Object_prototype_members = ''__proto__'' # Object_prototype_functions"

text \<open>
  What a plain object inherits under a name: \<^verbatim>\<open>__proto__\<close> gives the prototype,
  \<^verbatim>\<open>constructor\<close> the function \<^verbatim>\<open>Object\<close>, another member the function of that name.
\<close>

definition inherited_member :: "string \<Rightarrow> extracted" where
  "inherited_member part =
     (if part = ''__proto__'' then ObjectPrototype
      else if part = ''constructor'' then Builtin ''Object''
      else if part \<in> set Object_prototype_functions then Builtin part
      else Value Undefined)"

text \<open>
  \<^verbatim>\<open>value[part]\<close> for a non-array object: an own property first, an inherited member
  otherwise. The prototype of \<^verbatim>\<open>Object.prototype\<close> is null.
\<close>

fun read_member :: "extracted \<Rightarrow> string \<Rightarrow> extracted" where
  "read_member (Value (Obj m)) part =
     (case map_of m part of None \<Rightarrow> inherited_member part | Some v \<Rightarrow> Value v)"
| "read_member ObjectPrototype part =
     (if part = ''__proto__'' then Value Null else inherited_member part)"
| "read_member x part = Value Undefined"

text \<open>The values that a CSV row shows as an empty field.\<close>

definition nullish :: "extracted \<Rightarrow> bool" where
  "nullish x = (x = Value Null \<or> x = Value Undefined)"

section \<open>Errors (errors/handlers.ts)\<close>

text \<open>
  A thrown value is an \<^verbatim>\<open>ElasticMCPError\<close> (name, message, code, status code and
  optional context), some other \<^verbatim>\<open>Error\<close> (name and message), or a value that is no
  \<^verbatim>\<open>Error\<close> at all. The subclasses fix the name, the code and the status code.
\<close>

datatype exn =
    ElasticMCPError string string string nat "(string \<times> jsval) list option"
  | Error string string
  | Thrown jsval

definition ValidationError :: "string \<Rightarrow> (string \<times> jsval) list option \<Rightarrow> exn" where
  "ValidationError msg ctx = ElasticMCPError ''ValidationError'' msg ''VALIDATION_ERROR'' 400 ctx"

definition ConnectionError :: "string \<Rightarrow> (string \<times> jsval) list option \<Rightarrow> exn" where
  "ConnectionError msg ctx = ElasticMCPError ''ConnectionError'' msg ''CONNECTION_ERROR'' 503 ctx"

definition AuthenticationError :: "string \<Rightarrow> (string \<times> jsval) list option \<Rightarrow> exn" where
  "AuthenticationError msg ctx =
     ElasticMCPError ''AuthenticationError'' msg ''AUTHENTICATION_ERROR'' 401 ctx"

definition NotFoundError :: "string \<Rightarrow> (string \<times> jsval) list option \<Rightarrow> exn" where
  "NotFoundError msg ctx = ElasticMCPError ''NotFoundError'' msg ''NOT_FOUND'' 404 ctx"

definition RateLimitError :: "string \<Rightarrow> (string \<times> jsval) list option \<Rightarrow> exn" where
  "RateLimitError msg ctx = ElasticMCPError ''RateLimitError'' msg ''RATE_LIMIT_EXCEEDED'' 429 ctx"

text \<open>Assignment \<^verbatim>\<open>obj[key] = v\<close>: in place when the key exists, appended otherwise.\<close>

fun set_prop :: "(string \<times> jsval) list \<Rightarrow> string \<Rightarrow> jsval \<Rightarrow> (string \<times> jsval) list" where
  "set_prop [] key v = [(key, v)]"
| "set_prop ((k, w) # rest) key v =
     (if k = key then (k, v) # rest else (k, w) # set_prop rest key v)"

text \<open>The \<^verbatim>\<open>{ name, message }\<close> summary that \<^verbatim>\<open>ElasticsearchError\<close> keeps of its cause.\<close>

fun originalError_summary :: "exn option \<Rightarrow> jsval" where
  "originalError_summary None = Undefined"
| "originalError_summary (Some (ElasticMCPError n m c s ctx)) =
     Obj [(''name'', Str n), (''message'', Str m)]"
| "originalError_summary (Some (Error n m)) = Obj [(''name'', Str n), (''message'', Str m)]"
| "originalError_summary (Some (Thrown v)) =
     (if truthy v then Obj [(''name'', get_prop v ''name''), (''message'', get_prop v ''message'')]
      else Undefined)"

definition ElasticsearchError ::
  "string \<Rightarrow> exn option \<Rightarrow> (string \<times> jsval) list option \<Rightarrow> exn" where
  "ElasticsearchError msg originalError ctx =
     ElasticMCPError ''ElasticsearchError'' msg ''ELASTICSEARCH_ERROR'' 500
       (Some (set_prop (case ctx of None \<Rightarrow> [] | Some c \<Rightarrow> c) ''originalError''
                (originalError_summary originalError)))"

record ErrorResponse =
  err_code :: string
  err_message :: string
  err_statusCode :: nat
  err_context :: "(string \<times> jsval) list option"
  err_timestamp :: string
  err_requestId :: "string option"

text \<open>
  \<^verbatim>\<open>handleError\<close>; \<open>now\<close> is the ISO time stamp of the call. The log entries it
  writes are not part of the response and are left out.
\<close>

fun handleError :: "string \<Rightarrow> exn \<Rightarrow> string option \<Rightarrow> ErrorResponse" where
  "handleError now (ElasticMCPError n m c s ctx) requestId =
     \<lparr>err_code = c, err_message = m, err_statusCode = s, err_context = ctx,
      err_timestamp = now, err_requestId = requestId\<rparr>"
| "handleError now (Error n m) requestId =
     \<lparr>err_code = ''INTERNAL_ERROR'', err_message = ''An unexpected error occurred'',
      err_statusCode = 500, err_context = None,
      err_timestamp = now, err_requestId = requestId\<rparr>"
| "handleError now (Thrown v) requestId =
     \<lparr>err_code = ''UNKNOWN_ERROR'', err_message = ''An unknown error occurred'',
      err_statusCode = 500, err_context = None,
      err_timestamp = now, err_requestId = requestId\<rparr>"

definition sensitiveKeys :: "string list" where
  "sensitiveKeys =
     [''password'', ''apiKey'', ''token'', ''secret'', ''auth'', ''authorization'', ''credential'']"

definition is_sensitive :: "string \<Rightarrow> bool" where
  "is_sensitive key = list_ex (\<lambda>sensitive. str_includes (toLowerCase key) sensitive) sensitiveKeys"

text \<open>
  \<^verbatim>\<open>sanitizeError\<close>: every key of the context (its top level) whose lower-case form
  contains a sensitive name is assigned \<^verbatim>\<open>'***'\<close>. Keys are unique, so the loop of
  assignments rewrites each entry where it stands. (The copy \<^verbatim>\<open>{ ...error }\<close> is shallow,
  so the source also stores the new context in its argument; the model returns the
  response.)
\<close>

definition sanitizeError :: "ErrorResponse \<Rightarrow> ErrorResponse" where
  "sanitizeError error =
     (case err_context error of
        None \<Rightarrow> error
      | Some ctx \<Rightarrow>
          error\<lparr>err_context :=
            Some (map (\<lambda>(key, v). if is_sensitive key then (key, Str ''***'') else (key, v)) ctx)\<rparr>)"

section \<open>Query depth validation (tools/delete-document.ts, tools/search-elasticsearch.ts)\<close>

definition MAX_QUERY_DEPTH :: nat where
  "MAX_QUERY_DEPTH = 20"

text \<open>
  \<^verbatim>\<open>validateQueryDepth\<close> is the same function in both tools. The second function is its
  \<^verbatim>\<open>for\<close> loop over the values of the object; the first \<^verbatim>\<open>throw\<close> ends it.
\<close>

fun validateQueryDepth :: "(string \<times> jsval) list \<Rightarrow> nat \<Rightarrow> exn + unit"
  and validateQueryDepth_values :: "(string \<times> jsval) list \<Rightarrow> nat \<Rightarrow> exn + unit"
where
  "validateQueryDepth obj depth =
     (if depth > MAX_QUERY_DEPTH
      then Inl (ValidationError ''Query nesting exceeds maximum depth of 20'' None)
      else validateQueryDepth_values obj depth)"
| "validateQueryDepth_values [] depth = Inr ()"
| "validateQueryDepth_values ((key, v) # rest) depth =
     (case v of
        Obj nested \<Rightarrow>
          (case validateQueryDepth nested (depth + 1) of
             Inl e \<Rightarrow> Inl e
           | Inr u \<Rightarrow> validateQueryDepth_values rest depth)
      | _ \<Rightarrow> validateQueryDepth_values rest depth)"

text \<open>
  The nesting depth of a filter expression in the specification's words: the longest
  chain of object-valued (non-array) nesting below the root object. An object without
  object-valued properties has depth 0.
\<close>

fun nesting_depth :: "(string \<times> jsval) list \<Rightarrow> nat" where
  "nesting_depth [] = 0"
| "nesting_depth ((key, v) # rest) =
     max (case v of Obj nested \<Rightarrow> Suc (nesting_depth nested) | _ \<Rightarrow> 0) (nesting_depth rest)"

text \<open>A query with \<open>n\<close> levels of objects nested in one another under the key \<^verbatim>\<open>bool\<close>.\<close>

fun nested_query :: "nat \<Rightarrow> (string \<times> jsval) list" where
  "nested_query 0 = [(''term'', Str ''x'')]"
| "nested_query (Suc n) = [(''bool'', Obj (nested_query n))]"

section \<open>Document validation (tools/insert-data.ts)\<close>

text \<open>\<^verbatim>\<open>!/^\.|\.$|\.\./.test(fieldName)\<close>: no leading, trailing or doubled dot.\<close>

definition isValidDottedField :: "string \<Rightarrow> bool" where
  "isValidDottedField fieldName =
     (\<not> startsWith fieldName ''.'' \<and> \<not> endsWith fieldName ''.'' \<and> \<not> str_includes fieldName ''..'')"

text \<open>The messages that quote a key: \<^verbatim>\<open>`Field name '${key}' ...`\<close>.\<close>

definition quoted :: "string \<Rightarrow> string" where
  "quoted key = CHR 0x27 # key @ [CHR 0x27]"

definition reserved_field_error :: "string \<Rightarrow> exn" where
  "reserved_field_error key =
     ValidationError (''Field name '' @ quoted key @ '' cannot start with underscore (reserved)'') None"

definition dot_notation_error :: "string \<Rightarrow> exn" where
  "dot_notation_error key =
     ValidationError (''Invalid field name '' @ quoted key @ '': improper dot notation'') None"

definition name_length_error :: "string \<Rightarrow> exn" where
  "name_length_error key =
     ValidationError (''Field name '' @ quoted key @ '' exceeds maximum length of 256 characters'') None"

text \<open>The loop of \<^verbatim>\<open>validateDocument\<close> over \<^verbatim>\<open>Object.keys(document)\<close>.\<close>

fun validateDocument_keys :: "string list \<Rightarrow> exn + unit" where
  "validateDocument_keys [] = Inr ()"
| "validateDocument_keys (key # keys) =
     (if startsWith key ''_'' then Inl (reserved_field_error key)
      else if str_includes key ''.'' \<and> \<not> isValidDottedField key then Inl (dot_notation_error key)
      else if length key > 256 then Inl (name_length_error key)
      else validateDocument_keys keys)"

definition MAX_NESTING_DEPTH :: nat where
  "MAX_NESTING_DEPTH = 20"

text \<open>
  \<^verbatim>\<open>validateNestedObject\<close> and its loop over \<^verbatim>\<open>Object.entries(obj)\<close>. Only the values
  are inspected: nested objects are entered, arrays and strings are measured.
\<close>

fun validateNestedObject :: "(string \<times> jsval) list \<Rightarrow> nat \<Rightarrow> exn + unit"
  and validateNestedObject_entries :: "(string \<times> jsval) list \<Rightarrow> nat \<Rightarrow> exn + unit"
where
  "validateNestedObject obj depth =
     (if depth > MAX_NESTING_DEPTH
      then Inl (ValidationError ''Document nesting exceeds maximum depth of 20'' None)
      else validateNestedObject_entries obj depth)"
| "validateNestedObject_entries [] depth = Inr ()"
| "validateNestedObject_entries ((key, v) # rest) depth =
     (case v of
        Obj nested \<Rightarrow>
          (case validateNestedObject nested (depth + 1) of
             Inl e \<Rightarrow> Inl e
           | Inr u \<Rightarrow> validateNestedObject_entries rest depth)
      | Arr xs \<Rightarrow>
          (if length xs > 10000
           then Inl (ValidationError
                  (''Array field '' @ quoted key @ '' contains too many elements (max 10,000)'') None)
           else validateNestedObject_entries rest depth)
      | Str s \<Rightarrow>
          (if length s > 1024 * 1024
           then Inl (ValidationError
                  (''String field '' @ quoted key @ '' exceeds maximum length of 1MB'') None)
           else validateNestedObject_entries rest depth)
      | _ \<Rightarrow> validateNestedObject_entries rest depth)"

definition validateDocument :: "(string \<times> jsval) list \<Rightarrow> exn + unit" where
  "validateDocument document =
     (if length (Object_keys (Obj document)) = 0
      then Inl (ValidationError ''Document cannot be empty'' None)
      else (case validateDocument_keys (Object_keys (Obj document)) of
              Inl e \<Rightarrow> Inl e
            | Inr u \<Rightarrow>
                (if length (JSON_stringify (Obj document)) > 100 * 1024 * 1024
                 then Inl (ValidationError ''Document size exceeds 100MB limit'' None)
                 else validateNestedObject document 0)))"

text \<open>
  Whether some key of a payload, at the top level or inside a nested object, begins
  with an underscore: the reserved-name invariant in the specification's words.
\<close>

fun has_reserved_key :: "(string \<times> jsval) list \<Rightarrow> bool" where
  "has_reserved_key [] = False"
| "has_reserved_key ((key, v) # rest) =
     (startsWith key ''_''
      \<or> (case v of Obj nested \<Rightarrow> has_reserved_key nested | _ \<Rightarrow> False)
      \<or> has_reserved_key rest)"

section \<open>CSV export (tools/export-to-csv.ts)\<close>

subsection \<open>Arguments and collaborators\<close>

text \<open>
  The validated arguments. Of \<^verbatim>\<open>format\<close> only the delimiter is read by the tool.
\<close>

record ExportToCSVArgs =
  arg_index :: string
  arg_query :: "(string \<times> jsval) list option"
  arg_fields :: "string list option"
  arg_filename :: "string option"
  arg_delimiter :: "string option"
  arg_maxRows :: "int option"
  arg_compress :: "bool option"

text \<open>
  A search request, and the part of a search or scroll response that the tool reads:
  the \<^verbatim>\<open>_source\<close> of each hit of \<^verbatim>\<open>response.hits.hits\<close> (undefined when a hit has
  none) and \<^verbatim>\<open>response._scroll_id\<close>.
\<close>

record search_request =
  req_index :: string
  req_size :: int
  req_source :: "string list option"
  req_query :: "jsval option"
  req_scroll :: "string option"

record search_response =
  resp_hits :: "jsval list"
  resp_scroll_id :: "string option"

text \<open>
  The cluster client is a collaborator: each operation returns a response or throws.
  The number given to \<^verbatim>\<open>search\<close> and \<^verbatim>\<open>scroll\<close> counts the earlier calls of that
  operation by the running function, so that a later call may answer differently.
\<close>

record client =
  indices_getMapping :: "string \<Rightarrow> exn + jsval"
  client_search :: "nat \<Rightarrow> search_request \<Rightarrow> exn + search_response"
  client_scroll :: "nat \<Rightarrow> string \<Rightarrow> exn + search_response"
  client_clearScroll :: "string \<Rightarrow> exn + unit"

text \<open>What an export does to its collaborators, in order.\<close>

datatype event =
    SearchCall search_request
  | ScrollCall string
  | ClearScrollCall string
  | WriteRecords "(string \<times> extracted) list list"
  | LogDebug nat nat
  | LogWarn string

subsection \<open>\<^verbatim>\<open>generateFilename\<close>\<close>

text \<open>The character class \<^verbatim>\<open>[a-zA-Z0-9._-]\<close>.\<close>

definition filename_char :: "char \<Rightarrow> bool" where
  "filename_char c =
     (let n = (of_char c :: nat) in
      (97 \<le> n \<and> n \<le> 122) \<or> (65 \<le> n \<and> n \<le> 90) \<or> (48 \<le> n \<and> n \<le> 57)
      \<or> c = CHR ''.'' \<or> c = CHR ''_'' \<or> c = CHR ''-'')"

text \<open>\<^verbatim>\<open>.replace(/_{2,}/g, '_')\<close>: every run of underscores becomes one underscore.\<close>

fun collapse_underscores :: "string \<Rightarrow> string" where
  "collapse_underscores (a # b # rest) =
     (if a = CHR ''_'' \<and> b = CHR ''_'' then collapse_underscores (b # rest)
      else a # collapse_underscores (b # rest))"
| "collapse_underscores s = s"

text \<open>
  \<^verbatim>\<open>new Date().toISOString().replace(/[:.]/g, '-').split('T')[0]\<close>, from the ISO
  string \<open>now\<close> of the current time.
\<close>

definition export_timestamp :: "string \<Rightarrow> string" where
  "export_timestamp now =
     (case split_on CHR ''T'' (map (\<lambda>c. if c = CHR '':'' \<or> c = CHR ''.'' then CHR ''-'' else c) now) of
        [] \<Rightarrow> []
      | day # rest \<Rightarrow> day)"

definition generateFilename :: "string \<Rightarrow> ExportToCSVArgs \<Rightarrow> string" where
  "generateFilename now args =
     (case arg_filename args of
        Some name \<Rightarrow>
          (if name \<noteq> [] then
             (let sanitized =
                    collapse_underscores (map (\<lambda>c. if filename_char c then c else CHR ''_'') name)
              in if endsWith sanitized ''.csv'' then sanitized else sanitized @ ''.csv'')
           else arg_index args @ ''_export_'' @ export_timestamp now @ ''.csv'')
      | None \<Rightarrow> arg_index args @ ''_export_'' @ export_timestamp now @ ''.csv'')"

subsection \<open>\<^verbatim>\<open>extractFieldValue\<close>\<close>

text \<open>
  The loop over the path segments, with its early returns, followed by the conversion
  of a composite result. \<^verbatim>\<open>JSON.stringify\<close> belongs to the platform and is the parameter
  \<open>stringify\<close>; \<^verbatim>\<open>Object.prototype\<close> has no enumerable property, so its text is that of
  the empty object. A function is neither null nor an object: inside a path it ends
  the walk with null, at the end of a path it is returned.
\<close>

fun extractFieldValue_parts :: "(jsval \<Rightarrow> string) \<Rightarrow> extracted \<Rightarrow> string list \<Rightarrow> extracted" where
  "extractFieldValue_parts stringify x [] =
     (case x of
        Value v \<Rightarrow> if is_object v then Value (Str (stringify v)) else Value v
      | Builtin f \<Rightarrow> Builtin f
      | ObjectPrototype \<Rightarrow> Value (Str (stringify (Obj []))))"
| "extractFieldValue_parts stringify x (part # parts) =
     (if x = Value Null \<or> x = Value Undefined then Value Null
      else (case x of
              Value (Obj m) \<Rightarrow> extractFieldValue_parts stringify (read_member x part) parts
            | ObjectPrototype \<Rightarrow> extractFieldValue_parts stringify (read_member x part) parts
            | _ \<Rightarrow> Value Null))"

definition extractFieldValue :: "(jsval \<Rightarrow> string) \<Rightarrow> jsval \<Rightarrow> string \<Rightarrow> extracted" where
  "extractFieldValue stringify source fieldPath =
     extractFieldValue_parts stringify (Value source) (split_on CHR ''.'' fieldPath)"

text \<open>
  The value at a dotted path in the specification's words: \<open>None\<close> when a segment is
  absent or when a value that is not a (non-array) object is met before the path ends.
\<close>

fun path_value :: "jsval \<Rightarrow> string list \<Rightarrow> jsval option" where
  "path_value v [] = Some v"
| "path_value (Obj m) (part # parts) =
     (case map_of m part of None \<Rightarrow> None | Some w \<Rightarrow> path_value w parts)"
| "path_value v (part # parts) = None"

text \<open>
  Whether the walk along a path comes to an object that lacks the next segment while
  that segment is the name of a member of \<^verbatim>\<open>Object.prototype\<close>.
\<close>

fun inherited_segment :: "jsval \<Rightarrow> string list \<Rightarrow> bool" where
  "inherited_segment v [] = False"
| "inherited_segment (Obj m) (part # parts) =
     (case map_of m part of
        None \<Rightarrow> part \<in> set Object_prototype_members
      | Some w \<Rightarrow> inherited_segment w parts)"
| "inherited_segment v (part # parts) = False"

text \<open>
  The row that the \<^verbatim>\<open>csv-writer\<close> package writes for a record: the values of the header
  ids joined by the delimiter; an undefined, null or empty value as the empty field, any
  other as its \<^verbatim>\<open>String\<close>, quoted when it holds the delimiter, a double quote or a line
  feed. The package is not part of the repository; this is its behaviour for the values
  that \<^verbatim>\<open>extractFieldValue\<close> returns.
\<close>

fun js_String :: "jsval \<Rightarrow> string" where
  "js_String (Str s) = s"
| "js_String (Num n) = show_int n"
| "js_String (Bool b) = (if b then ''true'' else ''false'')"
| "js_String Null = ''null''"
| "js_String Undefined = ''undefined''"
| "js_String (Arr xs) = join '','' (map (\<lambda>x. if x = Null \<or> x = Undefined then [] else js_String x) xs)"
| "js_String (Obj m) = ''[object Object]''"

fun extracted_String :: "extracted \<Rightarrow> string" where
  "extracted_String (Value v) = js_String v"
| "extracted_String (Builtin f) = ''function '' @ f @ ''() { [native code] }''"
| "extracted_String ObjectPrototype = ''[object Object]''"

definition csv_field :: "string \<Rightarrow> extracted \<Rightarrow> string" where
  "csv_field delim x =
     (if x = Value Null \<or> x = Value Undefined \<or> x = Value (Str []) then []
      else (let s = extracted_String x in
            if str_includes s delim \<or> CHR 0x22 \<in> set s \<or> CHR 0x0A \<in> set s
            then CHR 0x22 # concat (map (\<lambda>c. if c = CHR 0x22 then [c, c] else [c]) s) @ [CHR 0x22]
            else s))"

definition csv_row :: "string \<Rightarrow> string list \<Rightarrow> (string \<times> extracted) list \<Rightarrow> string" where
  "csv_row delim ids record =
     join delim
       (map (\<lambda>i. csv_field delim (case map_of record i of None \<Rightarrow> Value Undefined | Some x \<Rightarrow> x)) ids)"

subsection \<open>Field discovery: \<^verbatim>\<open>extractFieldNames\<close> and \<^verbatim>\<open>determineFields\<close>\<close>

lemma size_map_of_less:
  "map_of m key = Some v \<Longrightarrow> size v < Suc (size_list (size_prod (\<lambda>x. 0) size) m)"
  by (induction m) (auto split: if_splits)

lemma size_get_prop_less: "is_object v \<Longrightarrow> truthy (get_prop v key) \<Longrightarrow> size (get_prop v key) < size v"
  by (cases v) (auto split: option.splits dest: size_map_of_less)

lemma size_elem_less: "v \<in> set xs \<Longrightarrow> size v < Suc (size_list size xs)"
  by (induction xs) auto

lemma size_entry_less:
  "(k, v) \<in> set (Object_entries p) \<Longrightarrow> is_object v \<Longrightarrow> size v < size p"
proof (cases p)
  case (Obj m)
  assume "(k, v) \<in> set (Object_entries p)"
  with Obj have "(k, v) \<in> set m" by simp
  then have "size v < Suc (size_list (size_prod (\<lambda>x. 0) size) m)"
    by (induction m) auto
  with Obj show ?thesis by simp
next
  case (Arr xs)
  assume "(k, v) \<in> set (Object_entries p)"
  with Arr have "v \<in> set xs" by (auto dest: set_zip_rightD)
  then have "size v < Suc (size_list size xs)" by (rule size_elem_less)
  with Arr show ?thesis by simp
next
  case (Str s)
  assume "(k, v) \<in> set (Object_entries p)" and "is_object v"
  with Str have "v \<in> set (map (\<lambda>c. Str [c]) s)" by (auto dest: set_zip_rightD)
  with \<open>is_object v\<close> show ?thesis by auto
qed auto

function extractFieldNames :: "jsval \<Rightarrow> string \<Rightarrow> string list" where
  "extractFieldNames properties pfx =
     concat (map (\<lambda>(key, v).
        (let fieldName = (if pfx \<noteq> [] then pfx @ ''.'' @ key else key) in
         if is_object v then
           (if truthy (get_prop v ''type'') then [fieldName]
            else if truthy (get_prop v ''properties'')
                 then extractFieldNames (get_prop v ''properties'') fieldName
                 else [])
         else []))
       (Object_entries properties))"
  by pat_completeness auto
termination
proof (relation "measure (\<lambda>(p, pfx). size p)")
  fix properties :: jsval and pfx :: string and x :: "string \<times> jsval" and key v fieldName
  assume "x \<in> set (Object_entries properties)" "(key, v) = x" "is_object v"
    "truthy (get_prop v ''properties'')"
  then have "size (get_prop v ''properties'') < size v" "size v < size properties"
    by (auto intro: size_get_prop_less size_entry_less)
  then show "((get_prop v ''properties'', fieldName), (properties, pfx)) \<in> measure (\<lambda>(p, pfx). size p)"
    by simp
qed simp

declare extractFieldNames.simps [simp del]

text \<open>The sample request \<^verbatim>\<open>{ index, body: { size: 1 } }\<close>.\<close>

definition sample_request :: "string \<Rightarrow> search_request" where
  "sample_request idx =
     \<lparr>req_index = idx, req_size = 1, req_source = None, req_query = None, req_scroll = None\<rparr>"

text \<open>\<^verbatim>\<open>Object.keys(sampleDoc || {})\<close> of the first hit of a sample response.\<close>

definition sample_keys :: "jsval \<Rightarrow> string list" where
  "sample_keys sampleDoc = Object_keys (if truthy sampleDoc then sampleDoc else Obj [])"

text \<open>
  The \<^verbatim>\<open>try\<close> block of \<^verbatim>\<open>determineFields\<close>. The number returned with the result is
  the number of \<^verbatim>\<open>search\<close> calls the block has made. \<^verbatim>\<open>Object.values\<close> of undefined or
  null throws a \<^verbatim>\<open>TypeError\<close>.
\<close>

definition determineFields_try :: "client \<Rightarrow> ExportToCSVArgs \<Rightarrow> (exn + string list) \<times> nat" where
  "determineFields_try c args =
     (case indices_getMapping c (arg_index args) of
        Inl e \<Rightarrow> (Inl e, 0)
      | Inr mappingResponse \<Rightarrow>
          (if mappingResponse = Undefined \<or> mappingResponse = Null
           then (Inl (Error ''TypeError'' ''Cannot convert undefined or null to object''), 0)
           else
             (let indexMapping = (case Object_entries mappingResponse of [] \<Rightarrow> Undefined | (k, v) # rest \<Rightarrow> v);
                  found = get_prop (get_prop indexMapping ''mappings'') ''properties'';
                  properties = (if truthy found then found else Obj []);
                  flds = extractFieldNames properties []
              in if length flds = 0 then
                   (case client_search c 0 (sample_request (arg_index args)) of
                      Inl e \<Rightarrow> (Inl e, 1)
                    | Inr sampleResponse \<Rightarrow>
                        (case resp_hits sampleResponse of
                           [] \<Rightarrow> (Inr flds, 1)
                         | sampleDoc # others \<Rightarrow> (Inr (sample_keys sampleDoc), 1)))
                 else (Inr flds, 0))))"

text \<open>The \<^verbatim>\<open>catch\<close> block, entered after \<open>n\<close> earlier \<^verbatim>\<open>search\<close> calls.\<close>

definition determineFields_catch :: "client \<Rightarrow> ExportToCSVArgs \<Rightarrow> nat \<Rightarrow> exn + string list" where
  "determineFields_catch c args n =
     (case client_search c n (sample_request (arg_index args)) of
        Inl e \<Rightarrow> Inl e
      | Inr sampleResponse \<Rightarrow>
          (case resp_hits sampleResponse of
             [] \<Rightarrow> Inl (ValidationError ''Could not determine fields to export and no fields specified'' None)
           | sampleDoc # others \<Rightarrow> Inr (sample_keys sampleDoc)))"

definition determineFields :: "client \<Rightarrow> ExportToCSVArgs \<Rightarrow> exn + string list" where
  "determineFields c args =
     (if (case arg_fields args of None \<Rightarrow> False | Some fs \<Rightarrow> length fs > 0)
      then Inr (case arg_fields args of None \<Rightarrow> [] | Some fs \<Rightarrow> fs)
      else (case determineFields_try c args of
              (Inr flds, n) \<Rightarrow> Inr flds
            | (Inl e, n) \<Rightarrow> determineFields_catch c args n))"

subsection \<open>The cursor loop: \<^verbatim>\<open>exportDataWithScroll\<close>\<close>

text \<open>\<^verbatim>\<open>if (response._scroll_id)\<close>: present and not the empty string.\<close>

definition has_scroll_id :: "search_response \<Rightarrow> bool" where
  "has_scroll_id response = (case resp_scroll_id response of None \<Rightarrow> False | Some sid \<Rightarrow> sid \<noteq> [])"

definition the_scroll_id :: "search_response \<Rightarrow> string" where
  "the_scroll_id response = (case resp_scroll_id response of None \<Rightarrow> [] | Some sid \<Rightarrow> sid)"

text \<open>
  The record built for one hit, as the assignments
  \<^verbatim>\<open>record[field] = extractFieldValue(hit._source, field)\<close> in the order of the fields.
\<close>

definition hit_record :: "string list \<Rightarrow> jsval \<Rightarrow> (string \<times> extracted) list" where
  "hit_record flds source = map (\<lambda>field. (field, extractFieldValue JSON_stringify source field)) flds"

text \<open>
  The \<^verbatim>\<open>while\<close> loop. \<open>n\<close> counts the completed iterations, which is the number of
  earlier \<^verbatim>\<open>writeRecords\<close> and \<^verbatim>\<open>scroll\<close> calls. The loop returns the last response and
  the total, or the error thrown by the writer or by \<^verbatim>\<open>scroll\<close>, and the events in order.
\<close>

function scroll_loop ::
  "client \<Rightarrow> (nat \<Rightarrow> (string \<times> extracted) list list \<Rightarrow> exn + unit) \<Rightarrow> string list \<Rightarrow> int \<Rightarrow> nat
     \<Rightarrow> search_response \<Rightarrow> nat \<Rightarrow> (exn + search_response \<times> nat) \<times> event list" where
  "scroll_loop c writeRecords flds maxRows n response totalExported =
     (if length (resp_hits response) > 0 \<and> int totalExported < maxRows then
        (let records = map (hit_record flds) (resp_hits response) in
         case writeRecords n records of
           Inl e \<Rightarrow> (Inl e, [WriteRecords records])
         | Inr u \<Rightarrow>
             (let exported = totalExported + length records;
                  written = [WriteRecords records, LogDebug (length records) exported]
              in if int exported \<ge> maxRows then (Inr (response, exported), written)
                 else if has_scroll_id response then
                   (case client_scroll c n (the_scroll_id response) of
                      Inl e \<Rightarrow> (Inl e, written @ [ScrollCall (the_scroll_id response)])
                    | Inr next_response \<Rightarrow>
                        (case scroll_loop c writeRecords flds maxRows (Suc n) next_response exported of
                           (result, later) \<Rightarrow>
                             (result, written @ ScrollCall (the_scroll_id response) # later)))
                 else (Inr (response, exported), written)))
      else (Inr (response, totalExported), []))"
  by pat_completeness auto
termination
  by (relation "measure (\<lambda>(c, writeRecords, flds, maxRows, n, response, totalExported).
        nat (maxRows - int totalExported))") auto

declare scroll_loop.simps [simp del]

text \<open>The \<^verbatim>\<open>// Clear scroll\<close> block: a failure of the release is logged and swallowed.\<close>

definition clear_scroll :: "client \<Rightarrow> search_response \<Rightarrow> event list" where
  "clear_scroll c response =
     (if has_scroll_id response then
        (case client_clearScroll c (the_scroll_id response) of
           Inl e \<Rightarrow> [ClearScrollCall (the_scroll_id response), LogWarn ''Failed to clear scroll'']
         | Inr u \<Rightarrow> [ClearScrollCall (the_scroll_id response)])
      else [])"

text \<open>
  \<^verbatim>\<open>exportDataWithScroll\<close>. \<^verbatim>\<open>sanitizeQuery\<close> (validation/schemas.ts) is a parameter: it
  returns the cleaned query or null, or throws. \<^verbatim>\<open>writeRecords\<close> is the CSV writer.
\<close>

definition effective_maxRows :: "ExportToCSVArgs \<Rightarrow> int" where
  "effective_maxRows args =
     (case arg_maxRows args of None \<Rightarrow> 1000000 | Some m \<Rightarrow> if m = 0 then 1000000 else m)"

definition match_all :: jsval where
  "match_all = Obj [(''match_all'', Obj [])]"

definition export_request :: "ExportToCSVArgs \<Rightarrow> string list \<Rightarrow> jsval \<Rightarrow> search_request" where
  "export_request args flds q =
     \<lparr>req_index = arg_index args, req_size = min 1000 (effective_maxRows args),
      req_source = Some flds, req_query = Some q, req_scroll = Some ''5m''\<rparr>"

text \<open>
  The query of the first page request: \<^verbatim>\<open>sanitizeQuery(args.query) || { match_all: {} }\<close>
  when a query is given, \<^verbatim>\<open>{ match_all: {} }\<close> otherwise.
\<close>

definition search_query ::
  "((string \<times> jsval) list \<Rightarrow> exn + (string \<times> jsval) list option) \<Rightarrow> ExportToCSVArgs \<Rightarrow> exn + jsval" where
  "search_query sanitizeQuery args =
     (case arg_query args of
        None \<Rightarrow> Inr match_all
      | Some q \<Rightarrow>
          (case sanitizeQuery q of
             Inl e \<Rightarrow> Inl e
           | Inr None \<Rightarrow> Inr match_all
           | Inr (Some sanitizedQuery) \<Rightarrow> Inr (Obj sanitizedQuery)))"

definition exportDataWithScroll ::
  "((string \<times> jsval) list \<Rightarrow> exn + (string \<times> jsval) list option) \<Rightarrow> client
     \<Rightarrow> (nat \<Rightarrow> (string \<times> extracted) list list \<Rightarrow> exn + unit)
     \<Rightarrow> ExportToCSVArgs \<Rightarrow> string list \<Rightarrow> (exn + nat) \<times> event list" where
  "exportDataWithScroll sanitizeQuery c writeRecords args flds =
     (case search_query sanitizeQuery args of
        Inl e \<Rightarrow> (Inl e, [])
      | Inr q \<Rightarrow>
          (case client_search c 0 (export_request args flds q) of
             Inl e \<Rightarrow> (Inl e, [SearchCall (export_request args flds q)])
           | Inr response \<Rightarrow>
               (case scroll_loop c writeRecords flds (effective_maxRows args) 0 response 0 of
                  (Inl e, evs) \<Rightarrow> (Inl e, SearchCall (export_request args flds q) # evs)
                | (Inr (last_response, totalExported), evs) \<Rightarrow>
                    (Inr totalExported,
                     SearchCall (export_request args flds q) # evs @ clear_scroll c last_response))))"

text \<open>Observations on the events of an export.\<close>

fun is_release :: "event \<Rightarrow> bool" where
  "is_release (ClearScrollCall sid) = True"
| "is_release ev = False"

definition release_count :: "event list \<Rightarrow> nat" where
  "release_count evs = length (filter is_release evs)"

fun is_scroll :: "event \<Rightarrow> bool" where
  "is_scroll (ScrollCall sid) = True"
| "is_scroll ev = False"

fun is_write :: "event \<Rightarrow> bool" where
  "is_write (WriteRecords records) = True"
| "is_write ev = False"

text \<open>The running totals logged after each batch, in order.\<close>

fun logged_totals :: "event list \<Rightarrow> nat list" where
  "logged_totals [] = []"
| "logged_totals (LogDebug batchSize exported # evs) = exported # logged_totals evs"
| "logged_totals (ev # evs) = logged_totals evs"

text \<open>
  What the client answered to the page requests among the events, in order; \<open>k\<close>
  counts the \<^verbatim>\<open>scroll\<close> calls before them.
\<close>

fun answers :: "client \<Rightarrow> nat \<Rightarrow> event list \<Rightarrow> (exn + search_response) list" where
  "answers c k [] = []"
| "answers c k (SearchCall req # evs) = client_search c 0 req # answers c k evs"
| "answers c k (ScrollCall sid # evs) = client_scroll c k sid # answers c (Suc k) evs"
| "answers c k (ev # evs) = answers c k evs"

text \<open>Whether an answer is a response that carries a scroll id.\<close>

fun carries_scroll_id :: "exn + search_response \<Rightarrow> bool" where
  "carries_scroll_id (Inl e) = False"
| "carries_scroll_id (Inr response) = has_scroll_id response"

subsection \<open>Finalization: \<^verbatim>\<open>compressFile\<close> and the end of \<^verbatim>\<open>execute\<close>\<close>

text \<open>
  The file system is a map from paths to contents. An operation on a missing file
  throws; besides, the environment may make any operation fail (\<open>fault\<close>). Every
  operation attempted is recorded, in order.
\<close>

datatype fs_op =
    Stat string
  | ReadFile string
  | WriteFile string
  | Unlink string
  | Rename string string

definition ENOENT :: exn where
  "ENOENT = Error ''Error'' ''ENOENT: no such file or directory''"

definition fs_stat :: "(fs_op \<Rightarrow> exn option) \<Rightarrow> (string \<Rightarrow> string option) \<Rightarrow> string \<Rightarrow> exn + nat" where
  "fs_stat fault fs p =
     (case fault (Stat p) of
        Some e \<Rightarrow> Inl e
      | None \<Rightarrow> (case fs p of None \<Rightarrow> Inl ENOENT | Some d \<Rightarrow> Inr (length d)))"

definition fs_readFile :: "(fs_op \<Rightarrow> exn option) \<Rightarrow> (string \<Rightarrow> string option) \<Rightarrow> string \<Rightarrow> exn + string" where
  "fs_readFile fault fs p =
     (case fault (ReadFile p) of
        Some e \<Rightarrow> Inl e
      | None \<Rightarrow> (case fs p of None \<Rightarrow> Inl ENOENT | Some d \<Rightarrow> Inr d))"

definition fs_writeFile ::
  "(fs_op \<Rightarrow> exn option) \<Rightarrow> (string \<Rightarrow> string option) \<Rightarrow> string \<Rightarrow> string
     \<Rightarrow> exn + (string \<Rightarrow> string option)" where
  "fs_writeFile fault fs p d =
     (case fault (WriteFile p) of Some e \<Rightarrow> Inl e | None \<Rightarrow> Inr (fs(p \<mapsto> d)))"

definition fs_unlink ::
  "(fs_op \<Rightarrow> exn option) \<Rightarrow> (string \<Rightarrow> string option) \<Rightarrow> string \<Rightarrow> exn + (string \<Rightarrow> string option)" where
  "fs_unlink fault fs p =
     (case fault (Unlink p) of
        Some e \<Rightarrow> Inl e
      | None \<Rightarrow> (case fs p of None \<Rightarrow> Inl ENOENT | Some d \<Rightarrow> Inr (fs(p := None))))"

definition fs_rename ::
  "(fs_op \<Rightarrow> exn option) \<Rightarrow> (string \<Rightarrow> string option) \<Rightarrow> string \<Rightarrow> string
     \<Rightarrow> exn + (string \<Rightarrow> string option)" where
  "fs_rename fault fs p q =
     (case fault (Rename p q) of
        Some e \<Rightarrow> Inl e
      | None \<Rightarrow>
          (case fs p of
             None \<Rightarrow> Inl ENOENT
           | Some d \<Rightarrow> Inr (if p = q then fs else (fs(p := None))(q \<mapsto> d))))"

text \<open>\<^verbatim>\<open>compressFile\<close>; \<open>gzip\<close> is zlib's compression of a whole buffer.\<close>

definition compressFile ::
  "(fs_op \<Rightarrow> exn option) \<Rightarrow> (string \<Rightarrow> exn + string) \<Rightarrow> (string \<Rightarrow> string option) \<Rightarrow> string \<Rightarrow> string
     \<Rightarrow> (exn + (string \<Rightarrow> string option)) \<times> fs_op list" where
  "compressFile fault gzip fs inputPath outputPath =
     (case fs_readFile fault fs inputPath of
        Inl e \<Rightarrow> (Inl e, [ReadFile inputPath])
      | Inr inputData \<Rightarrow>
          (case gzip inputData of
             Inl e \<Rightarrow> (Inl e, [ReadFile inputPath])
           | Inr compressedData \<Rightarrow>
               (case fs_writeFile fault fs outputPath compressedData of
                  Inl e \<Rightarrow> (Inl e, [ReadFile inputPath, WriteFile outputPath])
                | Inr fs' \<Rightarrow> (Inr fs', [ReadFile inputPath, WriteFile outputPath]))))"

text \<open>
  The end of \<^verbatim>\<open>execute\<close>, from \<^verbatim>\<open>fs.stat(tempFilename)\<close> to the rename: it returns the
  final name, the size in bytes of the final artifact and the new file system.
  (\<^verbatim>\<open>formatFileSize\<close>, which prints the size, is not modelled.)
\<close>

definition execute_finalize ::
  "(fs_op \<Rightarrow> exn option) \<Rightarrow> (string \<Rightarrow> exn + string) \<Rightarrow> (string \<Rightarrow> string option) \<Rightarrow> string \<Rightarrow> bool option
     \<Rightarrow> (exn + string \<times> nat \<times> (string \<Rightarrow> string option)) \<times> fs_op list" where
  "execute_finalize fault gzip fs filename compress =
     (let tempFilename = filename @ ''.tmp'' in
      case fs_stat fault fs tempFilename of
        Inl e \<Rightarrow> (Inl e, [Stat tempFilename])
      | Inr size0 \<Rightarrow>
          (if compress = Some True then
             (let finalFilename = filename @ ''.gz'' in
              case compressFile fault gzip fs tempFilename finalFilename of
                (Inl e, ops) \<Rightarrow> (Inl e, Stat tempFilename # ops)
              | (Inr fs1, ops) \<Rightarrow>
                  (case fs_unlink fault fs1 tempFilename of
                     Inl e \<Rightarrow> (Inl e, Stat tempFilename # ops @ [Unlink tempFilename])
                   | Inr fs2 \<Rightarrow>
                       (case fs_stat fault fs2 finalFilename of
                          Inl e \<Rightarrow>
                            (Inl e, Stat tempFilename # ops @ [Unlink tempFilename, Stat finalFilename])
                        | Inr size1 \<Rightarrow>
                            (Inr (finalFilename, size1, fs2),
                             Stat tempFilename # ops @ [Unlink tempFilename, Stat finalFilename]))))
           else
             (case fs_rename fault fs tempFilename filename of
                Inl e \<Rightarrow> (Inl e, [Stat tempFilename, Rename tempFilename filename])
              | Inr fs1 \<Rightarrow> (Inr (filename, size0, fs1), [Stat tempFilename, Rename tempFilename filename]))))"

subsection \<open>Sample collaborators\<close>

text \<open>
  A client that answers the first page request with \<open>first\<close> and the \<open>n\<close>-th
  continuation with \<open>later n\<close>, a writer that succeeds, one that fails, a sanitizer
  that returns the query as it is, and export arguments with a given row cap.
\<close>

definition sample_page :: "nat \<Rightarrow> string option \<Rightarrow> search_response" where
  "sample_page k sid = \<lparr>resp_hits = replicate k (Obj [(''a'', Num 1)]), resp_scroll_id = sid\<rparr>"

definition scripted_client :: "(exn + search_response) \<Rightarrow> (nat \<Rightarrow> exn + search_response) \<Rightarrow> client" where
  "scripted_client first later =
     \<lparr>indices_getMapping = (\<lambda>idx. Inr (Obj [])),
      client_search = (\<lambda>n req. first),
      client_scroll = (\<lambda>n sid. later n),
      client_clearScroll = (\<lambda>sid. Inr ())\<rparr>"

definition writer_ok :: "nat \<Rightarrow> (string \<times> extracted) list list \<Rightarrow> exn + unit" where
  "writer_ok n records = Inr ()"

definition writer_failing :: "nat \<Rightarrow> (string \<times> extracted) list list \<Rightarrow> exn + unit" where
  "writer_failing n records = Inl (Error ''Error'' ''ENOSPC: no space left on device'')"

definition sanitizer_id :: "(string \<times> jsval) list \<Rightarrow> exn + (string \<times> jsval) list option" where
  "sanitizer_id q = Inr (Some q)"

definition sample_args :: "int option \<Rightarrow> ExportToCSVArgs" where
  "sample_args cap =
     \<lparr>arg_index = ''logs'', arg_query = None, arg_fields = Some [''a''], arg_filename = None,
      arg_delimiter = None, arg_maxRows = cap, arg_compress = None\<rparr>"

text \<open>Whether a name holds two underscores next to each other.\<close>

fun has_double_underscore :: "string \<Rightarrow> bool" where
  "has_double_underscore (a # b # rest) =
     ((a = CHR ''_'' \<and> b = CHR ''_'') \<or> has_double_underscore (b # rest))"
| "has_double_underscore s = False"

text \<open>A client for field discovery: the mapping answer, and the \<open>n\<close>-th sample answer.\<close>

definition discovery_client :: "(exn + jsval) \<Rightarrow> (nat \<Rightarrow> exn + search_response) \<Rightarrow> client" where
  "discovery_client mapping sample =
     \<lparr>indices_getMapping = (\<lambda>idx. mapping),
      client_search = (\<lambda>n req. sample n),
      client_scroll = (\<lambda>n sid. Inr (sample_page 0 None)),
      client_clearScroll = (\<lambda>sid. Inr ())\<rparr>"

text \<open>The batches logged, as pairs of batch size and running total, in order.\<close>

fun logged_batches :: "event list \<Rightarrow> (nat \<times> nat) list" where
  "logged_batches [] = []"
| "logged_batches (LogDebug batchSize exported # evs) = (batchSize, exported) # logged_batches evs"
| "logged_batches (ev # evs) = logged_batches evs"

text \<open>
  The sensitive names in the specification's words, and the two conditions on a key:
  its lower-case form contains one of the names, or it contains none of them and not
  \<^verbatim>\<open>apikey\<close> either.
\<close>

definition credential_names :: "string list" where
  "credential_names = [''password'', ''token'', ''secret'', ''auth'', ''authorization'', ''credential'']"

definition names_credential :: "string \<Rightarrow> bool" where
  "names_credential key = list_ex (\<lambda>name. str_includes (toLowerCase key) name) credential_names"

definition names_nothing_sensitive :: "string \<Rightarrow> bool" where
  "names_nothing_sensitive key =
     list_all (\<lambda>name. \<not> str_includes (toLowerCase key) name) (''apikey'' # credential_names)"

section \<open>Properties\<close>

subsection \<open>Depth validation of filter expressions\<close>

lemma validateQueryDepth_at_depth:
  "validateQueryDepth obj depth =
     (if 20 < depth + nesting_depth obj
      then Inl (ValidationError ''Query nesting exceeds maximum depth of 20'' None) else Inr ())"
  "depth \<le> 20 \<Longrightarrow> validateQueryDepth_values obj depth =
     (if 20 < depth + nesting_depth obj
      then Inl (ValidationError ''Query nesting exceeds maximum depth of 20'' None) else Inr ())"
proof (induction obj depth and obj depth rule: validateQueryDepth_validateQueryDepth_values.induct)
  case (1 obj depth)
  then show ?case by (simp add: MAX_QUERY_DEPTH_def)
next
  case (2 depth)
  then show ?case by simp
next
  case (3 key v rest depth)
  show ?case
  proof (cases v)
    case (Obj nested)
    with 3 show ?thesis by (auto simp: max_def split: sum.splits)
  qed (use 3 in auto)
qed

lemma nesting_depth_nested_query: "nesting_depth (nested_query n) = n"
  by (induction n) auto

text \<open>
  Claim C3. A filter expression whose longest chain of object-valued (non-array) nesting
  exceeds 20 is rejected by the depth validation, started at depth 0 as both tools do,
  with the depth-exceeded \<^verbatim>\<open>ValidationError\<close>; an expression of depth 20 or less, in
  particular of depth exactly 20, passes.
\<close>

theorem validateQueryDepth_limit:
  "(20 < nesting_depth q \<longrightarrow>
      validateQueryDepth q 0 = Inl (ValidationError ''Query nesting exceeds maximum depth of 20'' None))
   \<and> (nesting_depth q \<le> 20 \<longrightarrow> validateQueryDepth q 0 = Inr ())"
  by (simp add: validateQueryDepth_at_depth(1) del: validateQueryDepth.simps)

theorem validateQueryDepth_limit_witness:
  "nesting_depth (nested_query 21) = 21
   \<and> validateQueryDepth (nested_query 21) 0
       = Inl (ValidationError ''Query nesting exceeds maximum depth of 20'' None)
   \<and> nesting_depth (nested_query 20) = 20
   \<and> validateQueryDepth (nested_query 20) 0 = Inr ()"
  using validateQueryDepth_limit [of "nested_query 21"] validateQueryDepth_limit [of "nested_query 20"]
  by (simp add: nesting_depth_nested_query del: validateQueryDepth.simps)

subsection \<open>Row extraction\<close>

lemma inherited_member_absent:
  "part \<notin> set Object_prototype_members \<Longrightarrow> inherited_member part = Value Undefined"
  by (auto simp: inherited_member_def Object_prototype_members_def Object_prototype_functions_def)

lemma extractFieldValue_parts_undefined:
  "nullish (extractFieldValue_parts stringify (Value Undefined) parts)"
  by (cases parts) (simp_all add: nullish_def)

lemma extractFieldValue_parts_absent:
  "path_value v parts = None \<Longrightarrow> \<not> inherited_segment v parts \<Longrightarrow>
   nullish (extractFieldValue_parts stringify (Value v) parts)"
proof (induction parts arbitrary: v)
  case Nil
  then show ?case by simp
next
  case (Cons part parts)
  show ?case
  proof (cases v)
    case (Obj m)
    show ?thesis
    proof (cases "map_of m part")
      case None
      with Obj Cons.prems(2) have "part \<notin> set Object_prototype_members" by simp
      then have "inherited_member part = Value Undefined" by (rule inherited_member_absent)
      with Obj None show ?thesis by (simp add: extractFieldValue_parts_undefined)
    next
      case (Some w)
      with Obj Cons.prems have "path_value w parts = None" "\<not> inherited_segment w parts"
        by simp_all
      then have "nullish (extractFieldValue_parts stringify (Value w) parts)" by (rule Cons.IH)
      with Obj Some show ?thesis by simp
    qed
  qed (simp_all add: nullish_def)
qed

lemma extractFieldValue_parts_present:
  "path_value v parts = Some w \<Longrightarrow>
   extractFieldValue_parts stringify (Value v) parts
     = (if is_object w then Value (Str (stringify w)) else Value w)"
proof (induction parts arbitrary: v)
  case Nil
  then show ?case by simp
next
  case (Cons part parts)
  from Cons.prems obtain m u where v: "v = Obj m" and u: "map_of m part = Some u"
    and rest: "path_value u parts = Some w"
    by (cases v) (auto split: option.splits)
  from rest have "extractFieldValue_parts stringify (Value u) parts
      = (if is_object w then Value (Str (stringify w)) else Value w)"
    by (rule Cons.IH)
  with v u show ?case by simp
qed

lemma csv_field_nullish: "nullish x \<Longrightarrow> csv_field delim x = []"
  by (auto simp: nullish_def csv_field_def)

text \<open>
  Claim C6, as amended. For every record and every dotted field path: when a segment of
  the path is absent and is not the name of a member that objects inherit from
  \<^verbatim>\<open>Object.prototype\<close>, or when a value that is not a non-array object (an array included)
  is met before the path ends, row extraction returns null or undefined, which the row
  shows as an empty field; when the path leads to a value through own properties, that
  value is returned, a composite one (object or array) as the text that
  \<^verbatim>\<open>JSON.stringify\<close> gives for it, whatever that function is. The fields
  \<^verbatim>\<open>["a.b", "c"]\<close> applied to \<^verbatim>\<open>{a: {b: 1}, c: 2}\<close> and \<^verbatim>\<open>{a: {}, c: 3}\<close> give the rows
  \<^verbatim>\<open>1,2\<close> and \<^verbatim>\<open>,3\<close>.
\<close>

theorem extractFieldValue_path:
  "(path_value source (split_on CHR ''.'' fieldPath) = None
      \<and> \<not> inherited_segment source (split_on CHR ''.'' fieldPath) \<longrightarrow>
      nullish (extractFieldValue stringify source fieldPath)
      \<and> csv_field delim (extractFieldValue stringify source fieldPath) = [])
   \<and> (\<forall>w. path_value source (split_on CHR ''.'' fieldPath) = Some w \<longrightarrow>
          extractFieldValue stringify source fieldPath
            = (if is_object w then Value (Str (stringify w)) else Value w))
   \<and> hit_record [''a.b'', ''c''] (Obj [(''a'', Obj [(''b'', Num 1)]), (''c'', Num 2)])
        = [(''a.b'', Value (Num 1)), (''c'', Value (Num 2))]
   \<and> csv_row '','' [''a.b'', ''c''] [(''a.b'', Value (Num 1)), (''c'', Value (Num 2))] = ''1,2''
   \<and> hit_record [''a.b'', ''c''] (Obj [(''a'', Obj []), (''c'', Num 3)])
        = [(''a.b'', Value Undefined), (''c'', Value (Num 3))]
   \<and> csv_row '','' [''a.b'', ''c''] [(''a.b'', Value Undefined), (''c'', Value (Num 3))] = '',3''"
proof -
  have "hit_record [''a.b'', ''c''] (Obj [(''a'', Obj [(''b'', Num 1)]), (''c'', Num 2)])
        = [(''a.b'', Value (Num 1)), (''c'', Value (Num 2))]"
    by code_simp
  moreover have "csv_row '','' [''a.b'', ''c''] [(''a.b'', Value (Num 1)), (''c'', Value (Num 2))] = ''1,2''"
    by code_simp
  moreover have "hit_record [''a.b'', ''c''] (Obj [(''a'', Obj []), (''c'', Num 3)])
        = [(''a.b'', Value Undefined), (''c'', Value (Num 3))]"
    by code_simp
  moreover have "csv_row '','' [''a.b'', ''c''] [(''a.b'', Value Undefined), (''c'', Value (Num 3))] = '',3''"
    by code_simp
  moreover have "nullish (extractFieldValue stringify source fieldPath)
      \<and> csv_field delim (extractFieldValue stringify source fieldPath) = []"
    if "path_value source (split_on CHR ''.'' fieldPath) = None"
      "\<not> inherited_segment source (split_on CHR ''.'' fieldPath)"
    using extractFieldValue_parts_absent[OF that, of stringify]
    by (simp add: extractFieldValue_def csv_field_nullish)
  moreover have "extractFieldValue stringify source fieldPath
            = (if is_object w then Value (Str (stringify w)) else Value w)"
    if "path_value source (split_on CHR ''.'' fieldPath) = Some w" for w
    using extractFieldValue_parts_present[OF that, of stringify]
    by (simp add: extractFieldValue_def)
  ultimately show ?thesis by blast
qed

theorem extractFieldValue_path_witness:
  "path_value (Obj [(''a'', Obj []), (''c'', Num 3)]) (split_on CHR ''.'' ''a.b'') = None
   \<and> extractFieldValue (\<lambda>v. ''<json>'') (Obj [(''a'', Obj []), (''c'', Num 3)]) ''a.b'' = Value Undefined
   \<and> path_value (Obj [(''a'', Arr [Num 1]), (''c'', Num 3)]) (split_on CHR ''.'' ''a.0'') = None
   \<and> extractFieldValue (\<lambda>v. ''<json>'') (Obj [(''a'', Arr [Num 1]), (''c'', Num 3)]) ''a.0'' = Value Null
   \<and> path_value (Obj [(''a'', Obj [(''b'', Arr [Num 1, Num 2])])]) (split_on CHR ''.'' ''a.b'')
       = Some (Arr [Num 1, Num 2])
   \<and> extractFieldValue (\<lambda>v. ''<json>'') (Obj [(''a'', Obj [(''b'', Arr [Num 1, Num 2])])]) ''a.b''
       = Value (Str ''<json>'')
   \<and> extractFieldValue JSON_stringify (Obj [(''a'', Obj [(''b'', Arr [Num 1, Num 2])])]) ''a.b''
       = Value (Str ''[1,2]'')
   \<and> extractFieldValue JSON_stringify (Obj [(''a'', Obj [(''b'', Obj [(''k'', Str ''v'')])])]) ''a''
       = Value (Str ''{\"b\":{\"k\":\"v\"}}'')"
proof -
  let ?json = "\<lambda>v :: jsval. ''<json>''"
  have p1: "path_value (Obj [(''a'', Obj []), (''c'', Num 3)]) (split_on CHR ''.'' ''a.b'') = None"
    by code_simp
  have i1: "\<not> inherited_segment (Obj [(''a'', Obj []), (''c'', Num 3)]) (split_on CHR ''.'' ''a.b'')"
    by code_simp
  have p2: "path_value (Obj [(''a'', Arr [Num 1]), (''c'', Num 3)]) (split_on CHR ''.'' ''a.0'') = None"
    by code_simp
  have p3: "path_value (Obj [(''a'', Obj [(''b'', Arr [Num 1, Num 2])])]) (split_on CHR ''.'' ''a.b'')
       = Some (Arr [Num 1, Num 2])"
    by code_simp
  have p4: "path_value (Obj [(''a'', Obj [(''b'', Obj [(''k'', Str ''v'')])])]) (split_on CHR ''.'' ''a'')
       = Some (Obj [(''b'', Obj [(''k'', Str ''v'')])])"
    by code_simp
  have e1: "extractFieldValue ?json (Obj [(''a'', Obj []), (''c'', Num 3)]) ''a.b'' = Value Undefined"
    by code_simp
  have e2: "extractFieldValue ?json (Obj [(''a'', Arr [Num 1]), (''c'', Num 3)]) ''a.0'' = Value Null"
    by code_simp
  have s3: "JSON_stringify (Arr [Num 1, Num 2]) = ''[1,2]''"
    by code_simp
  have s4: "JSON_stringify (Obj [(''b'', Obj [(''k'', Str ''v'')])]) = ''{\"b\":{\"k\":\"v\"}}''"
    by code_simp
  from extractFieldValue_path [of "Obj [(''a'', Obj []), (''c'', Num 3)]" "''a.b''" ?json "'',''"] p1 i1
  have n1: "nullish (extractFieldValue ?json (Obj [(''a'', Obj []), (''c'', Num 3)]) ''a.b'')"
    by blast
  from extractFieldValue_path [of "Obj [(''a'', Obj [(''b'', Arr [Num 1, Num 2])])]" "''a.b''" ?json "'',''"] p3
  have e3: "extractFieldValue ?json (Obj [(''a'', Obj [(''b'', Arr [Num 1, Num 2])])]) ''a.b''
              = Value (Str ''<json>'')"
    by simp
  from extractFieldValue_path [of "Obj [(''a'', Obj [(''b'', Arr [Num 1, Num 2])])]" "''a.b''" JSON_stringify "'',''"] p3 s3
  have e4: "extractFieldValue JSON_stringify (Obj [(''a'', Obj [(''b'', Arr [Num 1, Num 2])])]) ''a.b''
              = Value (Str ''[1,2]'')"
    by simp
  from extractFieldValue_path [of "Obj [(''a'', Obj [(''b'', Obj [(''k'', Str ''v'')])])]" "''a''" JSON_stringify "'',''"] p4 s4
  have e5: "extractFieldValue JSON_stringify (Obj [(''a'', Obj [(''b'', Obj [(''k'', Str ''v'')])])]) ''a''
              = Value (Str ''{\"b\":{\"k\":\"v\"}}'')"
    by simp
  from p1 p2 p3 e1 e2 e3 e4 e5 show ?thesis by simp
qed

text \<open>
  Claim C6 as stated fails. A path segment that the record lacks but that names a member
  of \<^verbatim>\<open>Object.prototype\<close> is read from the prototype: for the record \<^verbatim>\<open>{a: 1}\<close> the field
  \<^verbatim>\<open>constructor\<close> yields the function \<^verbatim>\<open>Object\<close>, which the row shows as its source
  text, and the field \<^verbatim>\<open>__proto__\<close> yields the text \<^verbatim>\<open>{}\<close>; neither is empty or null.
\<close>

theorem extractFieldValue_inherited_counterexample:
  "path_value (Obj [(''a'', Num 1)]) (split_on CHR ''.'' ''constructor'') = None
   \<and> extractFieldValue JSON_stringify (Obj [(''a'', Num 1)]) ''constructor'' = Builtin ''Object''
   \<and> \<not> nullish (extractFieldValue JSON_stringify (Obj [(''a'', Num 1)]) ''constructor'')
   \<and> csv_field '','' (extractFieldValue JSON_stringify (Obj [(''a'', Num 1)]) ''constructor'')
       = ''function Object() { [native code] }''
   \<and> path_value (Obj [(''a'', Num 1)]) (split_on CHR ''.'' ''__proto__'') = None
   \<and> extractFieldValue JSON_stringify (Obj [(''a'', Num 1)]) ''__proto__'' = Value (Str ''{}'')
   \<and> path_value (Obj [(''a'', Obj [])]) (split_on CHR ''.'' ''a.toString'') = None
   \<and> extractFieldValue JSON_stringify (Obj [(''a'', Obj [])]) ''a.toString'' = Builtin ''toString''"
  by code_simp

subsection \<open>The cursor loop\<close>

text \<open>Induction over the iterations of the loop, for a fixed client, writer and cap.\<close>

lemma scroll_loop_induct2 [consumes 0, case_names step]:
  assumes "\<And>n response totalExported.
     (\<And>next_response.
        \<lbrakk>resp_hits response \<noteq> []; int totalExported < maxRows;
         (w :: nat \<Rightarrow> (string \<times> extracted) list list \<Rightarrow> exn + unit) n
            (map (hit_record flds) (resp_hits response)) = Inr ();
         \<not> maxRows \<le> int (totalExported + length (resp_hits response));
         has_scroll_id response;
         client_scroll (c::client) n (the_scroll_id response) = Inr next_response\<rbrakk>
        \<Longrightarrow> P (Suc n) next_response (totalExported + length (resp_hits response)))
     \<Longrightarrow> P n response totalExported"
  shows "P n response totalExported"
proof -
  have "c' = c \<Longrightarrow> w' = w \<Longrightarrow> flds' = flds \<Longrightarrow> maxRows' = maxRows \<Longrightarrow> P n response totalExported"
    for c' w' flds' maxRows'
  proof (induction c' w' flds' maxRows' n response totalExported rule: scroll_loop.induct)
    case (1 c' w' flds' maxRows' n response totalExported)
    show ?case
    proof (rule assms)
      fix next_response
      assume a: "resp_hits response \<noteq> []" "int totalExported < maxRows"
        "w n (map (hit_record flds) (resp_hits response)) = Inr ()"
        "\<not> maxRows \<le> int (totalExported + length (resp_hits response))"
        "has_scroll_id response"
        "client_scroll c n (the_scroll_id response) = Inr next_response"
      show "P (Suc n) next_response (totalExported + length (resp_hits response))"
        using "1.IH"[OF _ refl _ refl refl, of "()" next_response] a "1.prems" by simp
    qed
  qed
  then show ?thesis by simp
qed

lemma scroll_loop_no_release:
  "filter is_release (snd (scroll_loop c w flds maxRows n response totalExported)) = []"
proof (induction n response totalExported
    rule: scroll_loop_induct2[where c=c and w=w and flds=flds and maxRows=maxRows])
  case (step n response totalExported)
  show ?case
    apply (subst scroll_loop.simps)
    using step
    apply (auto simp: Let_def split: sum.splits prod.splits)
    done
qed

lemma release_count_clear_scroll:
  "release_count (clear_scroll c r) = (if has_scroll_id r then 1 else 0)"
  by (simp add: clear_scroll_def release_count_def split: sum.splits)

lemma answers_append_clear: "answers c k (evs @ clear_scroll c' r) = answers c k evs"
  by (induction c k evs rule: answers.induct) (auto simp: clear_scroll_def split: sum.splits)

lemma scroll_loop_last_answer:
  "scroll_loop c w flds maxRows n response totalExported = (Inr (last_response, t), evs) \<Longrightarrow>
   last (Inr response # answers c n evs) = Inr last_response"
proof (induction n response totalExported arbitrary: evs
    rule: scroll_loop_induct2[where c=c and w=w and flds=flds and maxRows=maxRows])
  case (step n response totalExported)
  from step.prems show ?case
    apply (subst (asm) scroll_loop.simps)
    apply (auto simp: Let_def split: sum.splits prod.splits if_splits dest!: step.IH)
    done
qed

lemma scroll_loop_empty_page:
  "resp_hits response = [] \<Longrightarrow>
   scroll_loop c w flds maxRows n response totalExported = (Inr (response, totalExported), [])"
  by (subst scroll_loop.simps) simp

text \<open>
  Claim C1, as amended. Release of the cursor is attempted at most once per export.
  When the export returns a row count (the traversal ended by an empty batch, by the row
  cap or by a response without a scroll id), release is attempted exactly once if the
  last response received carries a non-empty scroll id, and not at all otherwise.
\<close>

theorem release_attempted_on_return:
  "release_count (snd (exportDataWithScroll sq c w args flds)) \<le> 1
   \<and> (\<forall>exported evs. exportDataWithScroll sq c w args flds = (Inr exported, evs) \<longrightarrow>
         release_count evs = (if carries_scroll_id (last (answers c 0 evs)) then 1 else 0))"
proof (cases "search_query sq args")
  case (Inl e)
  then show ?thesis by (simp add: exportDataWithScroll_def release_count_def)
next
  case q: (Inr q)
  show ?thesis
  proof (cases "client_search c 0 (export_request args flds q)")
    case (Inl e)
    with q show ?thesis by (simp add: exportDataWithScroll_def release_count_def)
  next
    case r: (Inr response)
    obtain result evs where loop:
      "scroll_loop c w flds (effective_maxRows args) 0 response 0 = (result, evs)"
      by (cases "scroll_loop c w flds (effective_maxRows args) 0 response 0")
    have none: "filter is_release evs = []"
      using scroll_loop_no_release[of c w flds "effective_maxRows args" 0 response 0] loop by simp
    show ?thesis
    proof (cases result)
      case (Inl e)
      with q r loop none show ?thesis
        by (simp add: exportDataWithScroll_def release_count_def)
    next
      case (Inr p)
      obtain last_response exported where p: "p = (last_response, exported)" by (cases p)
      from loop Inr p have "last (Inr response # answers c 0 evs) = Inr last_response"
        by (auto dest: scroll_loop_last_answer)
      with q r loop none Inr p show ?thesis
        using release_count_clear_scroll[of c last_response]
        by (simp add: exportDataWithScroll_def release_count_def answers_append_clear)
    qed
  qed
qed
theorem release_attempted_on_return_witness:
  "exportDataWithScroll sanitizer_id
     (scripted_client (Inr (sample_page 2 (Some ''s1''))) (\<lambda>n. Inr (sample_page 0 (Some ''s2''))))
     writer_ok (sample_args None) [''a'']
   = (Inr 2,
      [SearchCall (export_request (sample_args None) [''a''] match_all),
       WriteRecords [[(''a'', Value (Num 1))], [(''a'', Value (Num 1))]], LogDebug 2 2,
       ScrollCall ''s1'', ClearScrollCall ''s2''])
   \<and> carries_scroll_id (last (answers
         (scripted_client (Inr (sample_page 2 (Some ''s1''))) (\<lambda>n. Inr (sample_page 0 (Some ''s2''))))
         0
         [SearchCall (export_request (sample_args None) [''a''] match_all),
          WriteRecords [[(''a'', Value (Num 1))], [(''a'', Value (Num 1))]], LogDebug 2 2,
          ScrollCall ''s1'', ClearScrollCall ''s2'']))
   \<and> release_count
        [SearchCall (export_request (sample_args None) [''a''] match_all),
         WriteRecords [[(''a'', Value (Num 1))], [(''a'', Value (Num 1))]], LogDebug 2 2,
         ScrollCall ''s1'', ClearScrollCall ''s2''] = 1"
proof -
  let ?c = "scripted_client (Inr (sample_page 2 (Some ''s1''))) (\<lambda>n. Inr (sample_page 0 (Some ''s2'')))"
  let ?evs = "[SearchCall (export_request (sample_args None) [''a''] match_all),
       WriteRecords [[(''a'', Value (Num 1))], [(''a'', Value (Num 1))]], LogDebug 2 2,
       ScrollCall ''s1'', ClearScrollCall ''s2'']"
  have run: "exportDataWithScroll sanitizer_id ?c writer_ok (sample_args None) [''a''] = (Inr 2, ?evs)"
    by code_simp
  have carried: "carries_scroll_id (last (answers ?c 0 ?evs))"
    by code_simp
  from release_attempted_on_return [of sanitizer_id ?c writer_ok "sample_args None" "[''a'']"] run carried
  have "release_count ?evs = 1" by simp
  with run carried show ?thesis by simp
qed

text \<open>
  Claim C1 as stated fails. When advancing the cursor throws, or when writing a batch
  throws, the export ends with that error and no release is attempted; and an export
  that returns normally from a response without a scroll id attempts no release either.
\<close>

theorem release_exactly_once_counterexample:
  "fst (exportDataWithScroll sanitizer_id
          (scripted_client (Inr (sample_page 2 (Some ''s1'')))
             (\<lambda>n. Inl (Error ''ResponseError'' ''search_context_missing_exception'')))
          writer_ok (sample_args None) [''a''])
     = Inl (Error ''ResponseError'' ''search_context_missing_exception'')
   \<and> release_count (snd (exportDataWithScroll sanitizer_id
          (scripted_client (Inr (sample_page 2 (Some ''s1'')))
             (\<lambda>n. Inl (Error ''ResponseError'' ''search_context_missing_exception'')))
          writer_ok (sample_args None) [''a''])) = 0
   \<and> fst (exportDataWithScroll sanitizer_id
          (scripted_client (Inr (sample_page 2 (Some ''s1''))) (\<lambda>n. Inr (sample_page 0 (Some ''s2''))))
          writer_failing (sample_args None) [''a''])
     = Inl (Error ''Error'' ''ENOSPC: no space left on device'')
   \<and> release_count (snd (exportDataWithScroll sanitizer_id
          (scripted_client (Inr (sample_page 2 (Some ''s1''))) (\<lambda>n. Inr (sample_page 0 (Some ''s2''))))
          writer_failing (sample_args None) [''a''])) = 0
   \<and> fst (exportDataWithScroll sanitizer_id
          (scripted_client (Inr (sample_page 2 None)) (\<lambda>n. Inr (sample_page 0 None)))
          writer_ok (sample_args None) [''a'']) = Inr 2
   \<and> release_count (snd (exportDataWithScroll sanitizer_id
          (scripted_client (Inr (sample_page 2 None)) (\<lambda>n. Inr (sample_page 0 None)))
          writer_ok (sample_args None) [''a''])) = 0"
  by code_simp

text \<open>
  Claim C10. When the first page request of an export returns no records, the loop body
  does not run: the export returns 0, its only events are the first page request and the
  release, no batch is written and no continuation is requested; release is attempted
  when the first response carries a non-empty scroll id, and only then.
\<close>

theorem export_of_empty_first_page:
  "search_query sq args = Inr q \<Longrightarrow>
   client_search c 0 (export_request args flds q) = Inr response \<Longrightarrow>
   resp_hits response = [] \<Longrightarrow>
   exportDataWithScroll sq c w args flds
     = (Inr 0, SearchCall (export_request args flds q) # clear_scroll c response)
   \<and> filter is_write (snd (exportDataWithScroll sq c w args flds)) = []
   \<and> filter is_scroll (snd (exportDataWithScroll sq c w args flds)) = []
   \<and> release_count (snd (exportDataWithScroll sq c w args flds))
       = (if has_scroll_id response then 1 else 0)"
  by (simp add: exportDataWithScroll_def scroll_loop_empty_page clear_scroll_def release_count_def
        split: sum.splits)

theorem export_of_empty_first_page_witness:
  "search_query sanitizer_id (sample_args None) = Inr match_all
   \<and> client_search (scripted_client (Inr (sample_page 0 (Some ''s1''))) (\<lambda>n. Inr (sample_page 5 None))) 0
        (export_request (sample_args None) [''a''] match_all) = Inr (sample_page 0 (Some ''s1''))
   \<and> resp_hits (sample_page 0 (Some ''s1'')) = []
   \<and> exportDataWithScroll sanitizer_id
        (scripted_client (Inr (sample_page 0 (Some ''s1''))) (\<lambda>n. Inr (sample_page 5 None)))
        writer_ok (sample_args None) [''a'']
      = (Inr 0, [SearchCall (export_request (sample_args None) [''a''] match_all), ClearScrollCall ''s1''])"
proof -
  let ?c = "scripted_client (Inr (sample_page 0 (Some ''s1''))) (\<lambda>n. Inr (sample_page 5 None))"
  have q: "search_query sanitizer_id (sample_args None) = Inr match_all"
    by (simp add: search_query_def sample_args_def)
  have r: "client_search ?c 0 (export_request (sample_args None) [''a''] match_all)
             = Inr (sample_page 0 (Some ''s1''))"
    by (simp add: scripted_client_def)
  have h: "resp_hits (sample_page 0 (Some ''s1'')) = []"
    by (simp add: sample_page_def)
  have cl: "clear_scroll ?c (sample_page 0 (Some ''s1'')) = [ClearScrollCall ''s1'']"
    by (simp add: clear_scroll_def has_scroll_id_def the_scroll_id_def sample_page_def scripted_client_def)
  from export_of_empty_first_page [OF q r h, of writer_ok] q r h cl show ?thesis by simp
qed

text \<open>
  What does hold of the row count: the running totals never decrease, the value returned
  is the last of them, and every batch is begun below the cap, so that the count can
  pass the cap by less than the size of the last batch.
\<close>

lemma scroll_loop_totals:
  "sorted (totalExported # logged_totals (snd (scroll_loop c w flds maxRows n response totalExported)))"
proof (induction n response totalExported
    rule: scroll_loop_induct2[where c=c and w=w and flds=flds and maxRows=maxRows])
  case (step n response totalExported)
  show ?case
    apply (subst scroll_loop.simps)
    using step
    apply (fastforce simp: Let_def split: sum.splits prod.splits)
    done
qed

lemma scroll_loop_returns_last_total:
  "scroll_loop c w flds maxRows n response totalExported = (Inr (last_response, t), evs) \<Longrightarrow>
   t = last (totalExported # logged_totals evs)"
proof (induction n response totalExported arbitrary: evs
    rule: scroll_loop_induct2[where c=c and w=w and flds=flds and maxRows=maxRows])
  case (step n response totalExported)
  from step.prems show ?case
    apply (subst (asm) scroll_loop.simps)
    apply (auto simp: Let_def split: sum.splits prod.splits if_splits dest!: step.IH)
    done
qed

lemma scroll_loop_batches_begin_below_cap:
  "(batchSize, t) \<in> set (logged_batches (snd (scroll_loop c w flds maxRows n response totalExported)))
   \<Longrightarrow> batchSize \<le> t \<and> int (t - batchSize) < maxRows"
proof (induction n response totalExported
    rule: scroll_loop_induct2[where c=c and w=w and flds=flds and maxRows=maxRows])
  case (step n response totalExported)
  from step.prems show ?case
    apply (subst (asm) scroll_loop.simps)
    apply (auto simp: Let_def split: sum.splits prod.splits if_splits dest!: step.IH)
    done
qed

lemma logged_totals_append_clear: "logged_totals (evs @ clear_scroll c r) = logged_totals evs"
  by (induction evs rule: logged_totals.induct) (auto simp: clear_scroll_def split: sum.splits)

lemma logged_batches_append_clear: "logged_batches (evs @ clear_scroll c r) = logged_batches evs"
  by (induction evs rule: logged_batches.induct) (auto simp: clear_scroll_def split: sum.splits)

lemma export_logged:
  "(logged_totals (snd (exportDataWithScroll sq c w args flds)) = []
      \<and> logged_batches (snd (exportDataWithScroll sq c w args flds)) = [])
   \<or> (\<exists>response.
        logged_totals (snd (exportDataWithScroll sq c w args flds))
          = logged_totals (snd (scroll_loop c w flds (effective_maxRows args) 0 response 0))
        \<and> logged_batches (snd (exportDataWithScroll sq c w args flds))
          = logged_batches (snd (scroll_loop c w flds (effective_maxRows args) 0 response 0)))"
proof (cases "search_query sq args")
  case (Inl e)
  then show ?thesis by (simp add: exportDataWithScroll_def)
next
  case q: (Inr q)
  show ?thesis
  proof (cases "client_search c 0 (export_request args flds q)")
    case (Inl e)
    with q show ?thesis by (simp add: exportDataWithScroll_def)
  next
    case r: (Inr response)
    obtain result evs where loop:
      "scroll_loop c w flds (effective_maxRows args) 0 response 0 = (result, evs)"
      by (cases "scroll_loop c w flds (effective_maxRows args) 0 response 0")
    have "logged_totals (snd (exportDataWithScroll sq c w args flds)) = logged_totals evs
        \<and> logged_batches (snd (exportDataWithScroll sq c w args flds)) = logged_batches evs"
      using q r loop
      by (cases result)
         (auto simp: exportDataWithScroll_def logged_totals_append_clear logged_batches_append_clear)
    with loop show ?thesis by (metis snd_conv)
  qed
qed

lemma export_totals_nondecreasing:
  "sorted (logged_totals (snd (exportDataWithScroll sq c w args flds)))"
proof -
  have "sorted (logged_totals (snd (scroll_loop c w flds (effective_maxRows args) 0 response 0)))"
    for response
    using scroll_loop_totals[of 0 c w flds "effective_maxRows args" 0 response] by simp
  with export_logged[of sq c w args flds] show ?thesis by auto
qed

lemma export_returns_last_total:
  "exportDataWithScroll sq c w args flds = (Inr t, evs) \<Longrightarrow> t = last (0 # logged_totals evs)"
proof -
  assume run: "exportDataWithScroll sq c w args flds = (Inr t, evs)"
  then obtain q response last_response loop_evs where
    "scroll_loop c w flds (effective_maxRows args) 0 response 0 = (Inr (last_response, t), loop_evs)"
    "evs = SearchCall (export_request args flds q) # loop_evs @ clear_scroll c last_response"
    by (auto simp: exportDataWithScroll_def split: sum.splits prod.splits)
  then show ?thesis
    using scroll_loop_returns_last_total[of c w flds "effective_maxRows args" 0 response 0 last_response t loop_evs]
    by (simp add: logged_totals_append_clear)
qed

lemma export_batches_begin_below_cap:
  "(batchSize, t) \<in> set (logged_batches (snd (exportDataWithScroll sq c w args flds)))
   \<Longrightarrow> batchSize \<le> t \<and> int (t - batchSize) < effective_maxRows args"
proof -
  assume b: "(batchSize, t) \<in> set (logged_batches (snd (exportDataWithScroll sq c w args flds)))"
  with export_logged[of sq c w args flds] obtain response where
    "(batchSize, t) \<in> set (logged_batches (snd (scroll_loop c w flds (effective_maxRows args) 0 response 0)))"
    by auto
  then show ?thesis by (rule scroll_loop_batches_begin_below_cap)
qed

text \<open>
  Claim C2 fails on the code. The cap is compared with the running total only after a whole
  batch has been written, and a batch is never cut: with \<^verbatim>\<open>maxRows = 1500\<close> the tool asks
  for pages of 1000 records, and a collection that delivers two full pages yields 2000
  exported rows. The running totals logged are 1000 and 2000.
\<close>

theorem rows_exceed_cap:
  "effective_maxRows (sample_args (Some 1500)) = 1500
   \<and> req_size (export_request (sample_args (Some 1500)) [''a''] match_all) = 1000
   \<and> fst (exportDataWithScroll sanitizer_id
          (scripted_client (Inr (sample_page 1000 (Some ''s1''))) (\<lambda>n. Inr (sample_page 1000 (Some ''s1''))))
          writer_ok (sample_args (Some 1500)) [''a'']) = Inr 2000
   \<and> logged_totals (snd (exportDataWithScroll sanitizer_id
          (scripted_client (Inr (sample_page 1000 (Some ''s1''))) (\<lambda>n. Inr (sample_page 1000 (Some ''s1''))))
          writer_ok (sample_args (Some 1500)) [''a''])) = [1000, 2000]"
  by code_simp

subsection \<open>Finalization of the artifact\<close>

text \<open>
  Claim C7. On every successful finalization exactly one of the two paths has run. With
  compression requested the operations are: stat of the temporary file, one read of the
  whole temporary file, one write of its compressed content under the name with the
  \<^verbatim>\<open>.gz\<close> suffix, removal of the temporary file, stat of the final file. Otherwise they
  are the stat and one rename of the temporary file to the final name. Afterwards the
  final artifact exists and the temporary file does not.
\<close>

theorem finalize_one_path:
  "execute_finalize fault gzip fs filename compress = (Inr (finalFilename, bytes, fs'), ops) \<Longrightarrow>
   fs' (filename @ ''.tmp'') = None
   \<and> fs' finalFilename \<noteq> None
   \<and> (if compress = Some True
       then finalFilename = filename @ ''.gz''
            \<and> ops = [Stat (filename @ ''.tmp''), ReadFile (filename @ ''.tmp''),
                      WriteFile (filename @ ''.gz''), Unlink (filename @ ''.tmp''),
                      Stat (filename @ ''.gz'')]
            \<and> (\<exists>content compressed. fs (filename @ ''.tmp'') = Some content
                   \<and> gzip content = Inr compressed
                   \<and> fs' = (fs(filename @ ''.gz'' \<mapsto> compressed))(filename @ ''.tmp'' := None)
                   \<and> bytes = length compressed)
       else finalFilename = filename
            \<and> ops = [Stat (filename @ ''.tmp''), Rename (filename @ ''.tmp'') filename]
            \<and> (\<exists>content. fs (filename @ ''.tmp'') = Some content
                   \<and> fs' = (fs(filename @ ''.tmp'' := None))(filename \<mapsto> content)
                   \<and> bytes = length content))"
proof (cases "compress = Some True")
  case True
  assume run: "execute_finalize fault gzip fs filename compress = (Inr (finalFilename, bytes, fs'), ops)"
  from run True show ?thesis
    by (auto simp: execute_finalize_def compressFile_def fs_stat_def fs_readFile_def
          fs_writeFile_def fs_unlink_def Let_def
          split: sum.splits option.splits prod.splits if_splits)
next
  case False
  assume run: "execute_finalize fault gzip fs filename compress = (Inr (finalFilename, bytes, fs'), ops)"
  from run False show ?thesis
    by (auto simp: execute_finalize_def fs_stat_def fs_rename_def Let_def
          split: sum.splits option.splits prod.splits if_splits)
qed

theorem finalize_one_path_witness:
  "execute_finalize (\<lambda>op. None) (\<lambda>d. Inr (''gz:'' @ d)) [''out.csv.tmp'' \<mapsto> ''a,b''] ''out.csv'' (Some True)
     = (Inr (''out.csv.gz'', 6, [''out.csv.gz'' \<mapsto> ''gz:a,b'']),
        [Stat ''out.csv.tmp'', ReadFile ''out.csv.tmp'', WriteFile ''out.csv.gz'',
         Unlink ''out.csv.tmp'', Stat ''out.csv.gz''])
   \<and> execute_finalize (\<lambda>op. None) (\<lambda>d. Inr (''gz:'' @ d)) [''out.csv.tmp'' \<mapsto> ''a,b''] ''out.csv'' None
     = (Inr (''out.csv'', 3, [''out.csv'' \<mapsto> ''a,b'']),
        [Stat ''out.csv.tmp'', Rename ''out.csv.tmp'' ''out.csv''])"
proof -
  let ?fs = "[''out.csv.tmp'' \<mapsto> ''a,b'']"
  let ?gz = "\<lambda>d :: string. (Inr (''gz:'' @ d) :: exn + string)"
  obtain r1 ops1 where run1: "execute_finalize (\<lambda>op. None) ?gz ?fs ''out.csv'' (Some True) = (r1, ops1)"
    by (cases "execute_finalize (\<lambda>op. None) ?gz ?fs ''out.csv'' (Some True)")
  then obtain f1 b1 fs1 where ok1: "r1 = Inr (f1, b1, fs1)"
    by (auto simp: execute_finalize_def compressFile_def fs_stat_def fs_readFile_def
          fs_writeFile_def fs_unlink_def Let_def)
  obtain r2 ops2 where run2: "execute_finalize (\<lambda>op. None) ?gz ?fs ''out.csv'' None = (r2, ops2)"
    by (cases "execute_finalize (\<lambda>op. None) ?gz ?fs ''out.csv'' None")
  then obtain f2 b2 fs2 where ok2: "r2 = Inr (f2, b2, fs2)"
    by (auto simp: execute_finalize_def fs_stat_def fs_rename_def Let_def)
  have e: "[''out.csv.tmp'' \<mapsto> ''a,b'', ''out.csv.gz'' \<mapsto> ''gz:a,b''](''out.csv.tmp'' := None)
             = [''out.csv.gz'' \<mapsto> ''gz:a,b'']"
    by (rule ext) simp
  from finalize_one_path [OF run1 [unfolded ok1]] finalize_one_path [OF run2 [unfolded ok2]]
  show ?thesis
    unfolding run1 run2 ok1 ok2 by (auto simp: e)
qed

subsection \<open>Reserved field names in write payloads\<close>

lemma validateDocument_keys_reserved:
  "key \<in> set keys \<Longrightarrow> startsWith key ''_'' \<Longrightarrow>
   \<exists>msg. validateDocument_keys keys = Inl (ValidationError msg None)"
  by (induction keys)
     (auto simp: reserved_field_error_def dot_notation_error_def name_length_error_def)

lemma validateDocument_keys_first_reserved:
  "validateDocument_keys before = Inr () \<Longrightarrow> startsWith key ''_'' \<Longrightarrow>
   validateDocument_keys (before @ key # after) = Inl (reserved_field_error key)"
  by (induction before) (auto split: if_splits)

lemma validateDocument_keys_prefix:
  "validateDocument_keys (before @ after) = Inr () \<Longrightarrow> validateDocument_keys before = Inr ()"
  by (induction before) (auto split: if_splits)

lemma validateDocument_valid_keys:
  "validateDocument document = Inr () \<Longrightarrow> validateDocument_keys (map fst document) = Inr ()"
  by (auto simp: validateDocument_def Object_keys_def split: if_splits sum.splits)

text \<open>
  Claim C4, as amended. A write payload with a top-level key that begins with an
  underscore fails validation with a \<^verbatim>\<open>ValidationError\<close>; it is the reserved-field
  error naming that key when no earlier top-level key is rejected, in particular when
  the payload without that key is valid. Removing the key from such a payload gives back
  the valid payload, which passes. Keys inside nested objects are not checked.
\<close>

theorem reserved_top_level_key:
  "startsWith key ''_'' \<Longrightarrow>
   (\<exists>msg. validateDocument (before @ (key, v) # after) = Inl (ValidationError msg None))
   \<and> (validateDocument_keys (map fst before) = Inr () \<longrightarrow>
        validateDocument (before @ (key, v) # after) = Inl (reserved_field_error key))
   \<and> (validateDocument (before @ after) = Inr () \<longrightarrow>
        validateDocument (before @ (key, v) # after) = Inl (reserved_field_error key))"
proof -
  assume u: "startsWith key ''_''"
  let ?doc = "before @ (key, v) # after"
  have keys: "Object_keys (Obj ?doc) = map fst before @ key # map fst after"
    by (simp add: Object_keys_def)
  from u obtain msg where "validateDocument_keys (Object_keys (Obj ?doc)) = Inl (ValidationError msg None)"
    using validateDocument_keys_reserved[of key "Object_keys (Obj ?doc)"] keys by auto
  then have a: "\<exists>msg. validateDocument ?doc = Inl (ValidationError msg None)"
    by (auto simp: validateDocument_def keys)
  have b: "validateDocument ?doc = Inl (reserved_field_error key)"
    if "validateDocument_keys (map fst before) = Inr ()"
    using validateDocument_keys_first_reserved[OF that u, of "map fst after"]
    by (simp add: validateDocument_def keys)
  have c: "validateDocument ?doc = Inl (reserved_field_error key)"
    if "validateDocument (before @ after) = Inr ()"
  proof -
    from that have "validateDocument_keys (map fst before @ map fst after) = Inr ()"
      using validateDocument_valid_keys[of "before @ after"] by simp
    then have "validateDocument_keys (map fst before) = Inr ()"
      by (rule validateDocument_keys_prefix)
    then show ?thesis by (rule b)
  qed
  from a b c show ?thesis by blast
qed

theorem reserved_top_level_key_witness:
  "startsWith ''_id'' ''_''
   \<and> validateDocument [(''title'', Str ''x'')] = Inr ()
   \<and> validateDocument [(''title'', Str ''x''), (''_id'', Num 7)] = Inl (reserved_field_error ''_id'')"
proof -
  have u: "startsWith ''_id'' ''_''" by (simp add: startsWith_def)
  have ok: "validateDocument ([(''title'', Str ''x'')] @ []) = Inr ()"
    by (simp add: validateDocument_def Object_keys_def startsWith_def isValidDottedField_def
          JSON_quote_def quote_char_def MAX_NESTING_DEPTH_def)
  from reserved_top_level_key [OF u, of "[(''title'', Str ''x'')]" "Num 7" "[]"] ok
  have "validateDocument ([(''title'', Str ''x'')] @ (''_id'', Num 7) # []) = Inl (reserved_field_error ''_id'')"
    by blast
  with u ok show ?thesis by simp
qed

text \<open>
  Claim C4 as stated fails. A key that begins with an underscore inside a nested object
  is accepted; and a payload whose top-level underscore key comes after a key with bad
  dot notation fails with the dot-notation error, not the reserved-field error.
\<close>

theorem reserved_nested_key_counterexample:
  "has_reserved_key [(''user'', Obj [(''_secret'', Num 1)])]
   \<and> validateDocument [(''user'', Obj [(''_secret'', Num 1)])] = Inr ()
   \<and> has_reserved_key [(''a..b'', Num 1), (''_id'', Num 2)]
   \<and> validateDocument [(''a..b'', Num 1), (''_id'', Num 2)] = Inl (dot_notation_error ''a..b'')"
proof -
  have "validateDocument [(''user'', Obj [(''_secret'', Num 1)])] = Inr ()"
    by (simp add: validateDocument_def Object_keys_def startsWith_def isValidDottedField_def
          JSON_quote_def quote_char_def MAX_NESTING_DEPTH_def show_int_def show_nat.simps
          digit_char_def)
  moreover have "validateDocument [(''a..b'', Num 1), (''_id'', Num 2)] = Inl (dot_notation_error ''a..b'')"
    by (simp add: validateDocument_def Object_keys_def startsWith_def isValidDottedField_def
          endsWith_def)
  ultimately show ?thesis by (simp add: startsWith_def)
qed

subsection \<open>Sanitizing the error context\<close>

lemma str_includes_set: "str_includes s p \<Longrightarrow> set p \<subseteq> set s"
proof (induction s)
  case Nil
  then show ?case by simp
next
  case (Cons a s)
  from Cons.prems have "prefix p (a # s) \<or> str_includes s p" by simp
  then show ?case
  proof
    assume "prefix p (a # s)"
    then show ?thesis by (rule set_mono_prefix)
  next
    assume "str_includes s p"
    then have "set p \<subseteq> set s" by (rule Cons.IH)
    then show ?thesis by auto
  qed
qed

lemma toLowerCase_char_not_upper: "toLowerCase_char c \<noteq> CHR ''K''"
proof -
  have "of_char (toLowerCase_char c) \<noteq> (75 :: nat)"
    by (auto simp: toLowerCase_char_def Let_def)
  then show ?thesis by auto
qed

lemma apiKey_never_matched: "\<not> str_includes (toLowerCase key) ''apiKey''"
proof
  assume "str_includes (toLowerCase key) ''apiKey''"
  then have "CHR ''K'' \<in> set (toLowerCase key)"
    by (auto dest!: str_includes_set)
  then obtain c where "toLowerCase_char c = CHR ''K''"
    by (auto simp: toLowerCase_def)
  then show False
    by (simp add: toLowerCase_char_not_upper)
qed

lemma is_sensitive_credential: "is_sensitive key \<longleftrightarrow> names_credential key"
  using apiKey_never_matched[of key]
  by (auto simp: is_sensitive_def sensitiveKeys_def names_credential_def credential_names_def)

lemma names_nothing_sensitive_not_credential: "names_nothing_sensitive key \<Longrightarrow> \<not> names_credential key"
  by (auto simp: names_nothing_sensitive_def names_credential_def credential_names_def)

text \<open>
  Claim C9, as amended. For every error response with a context, in the response that
  \<^verbatim>\<open>sanitizeError\<close> returns: every top-level key of the context whose lower-case form
  contains one of password, token, secret, auth, authorization, credential has its
  whole value, a nested object included, replaced by \<^verbatim>\<open>'***'\<close>; every top-level entry
  whose lower-case key contains none of these names, and not \<^verbatim>\<open>apikey\<close>, is returned
  unchanged with everything nested in its value; the keys and their order are kept, and
  the code, message, status code, time stamp and request id are unchanged.
\<close>

theorem sanitizeError_masks_top_level:
  "err_context response = Some ctx \<Longrightarrow>
   i < length ctx \<Longrightarrow>
   (\<exists>ctx'. err_context (sanitizeError response) = Some ctx'
       \<and> map fst ctx' = map fst ctx
       \<and> (names_credential (fst (ctx ! i)) \<longrightarrow> ctx' ! i = (fst (ctx ! i), Str ''***''))
       \<and> (names_nothing_sensitive (fst (ctx ! i)) \<longrightarrow> ctx' ! i = ctx ! i))
   \<and> sanitizeError response = response\<lparr>err_context := err_context (sanitizeError response)\<rparr>"
proof -
  assume c: "err_context response = Some ctx" and i: "i < length ctx"
  let ?ctx' = "map (\<lambda>(key, v). if is_sensitive key then (key, Str ''***'') else (key, v)) ctx"
  have 1: "err_context (sanitizeError response) = Some ?ctx'"
    using c by (simp add: sanitizeError_def)
  have 2: "map fst ?ctx' = map fst ctx"
    by (induction ctx) (auto split: prod.splits)
  have 3: "?ctx' ! i = (fst (ctx ! i), Str ''***'')" if "names_credential (fst (ctx ! i))"
    using i that by (simp add: case_prod_beta is_sensitive_credential)
  have 4: "?ctx' ! i = ctx ! i" if "names_nothing_sensitive (fst (ctx ! i))"
    using i names_nothing_sensitive_not_credential[OF that]
    by (simp add: case_prod_beta is_sensitive_credential)
  have 5: "sanitizeError response = response\<lparr>err_context := err_context (sanitizeError response)\<rparr>"
    using c by (simp add: sanitizeError_def)
  from 1 2 3 4 5 show ?thesis by blast
qed

theorem sanitizeError_masks_top_level_witness:
  "sanitizeError (handleError ''2024-05-06T07:08:09.123Z''
      (ConnectionError ''cannot connect''
         (Some [(''node'', Obj [(''url'', Str ''https://es:9200'')]),
                (''Password'', Str ''hunter2''),
                (''auth'', Obj [(''user'', Str ''u'')])]))
      (Some ''call-tool''))
     = \<lparr>err_code = ''CONNECTION_ERROR'', err_message = ''cannot connect'', err_statusCode = 503,
        err_context = Some [(''node'', Obj [(''url'', Str ''https://es:9200'')]),
                            (''Password'', Str ''***''),
                            (''auth'', Str ''***'')],
        err_timestamp = ''2024-05-06T07:08:09.123Z'', err_requestId = Some ''call-tool''\<rparr>"
proof -
  let ?ctx = "[(''node'', Obj [(''url'', Str ''https://es:9200'')]),
               (''Password'', Str ''hunter2''),
               (''auth'', Obj [(''user'', Str ''u'')])]"
  let ?r = "handleError ''2024-05-06T07:08:09.123Z'' (ConnectionError ''cannot connect'' (Some ?ctx)) (Some ''call-tool'')"
  have c: "err_context ?r = Some ?ctx" by (simp add: ConnectionError_def)
  have k0: "names_nothing_sensitive (fst (?ctx ! 0))" by code_simp
  have k1: "names_credential (fst (?ctx ! 1))" by code_simp
  have k2: "names_credential (fst (?ctx ! 2))" by code_simp
  have i0: "0 < length ?ctx" and i1: "1 < length ?ctx" and i2: "2 < length ?ctx" by simp_all
  from sanitizeError_masks_top_level [OF c i0]
  obtain c0 where a0: "err_context (sanitizeError ?r) = Some c0" and l0: "map fst c0 = map fst ?ctx"
    and u0: "names_nothing_sensitive (fst (?ctx ! 0)) \<longrightarrow> c0 ! 0 = ?ctx ! 0"
    and rest: "sanitizeError ?r = ?r\<lparr>err_context := err_context (sanitizeError ?r)\<rparr>"
    by blast
  from sanitizeError_masks_top_level [OF c i1]
  obtain c1 where a1: "err_context (sanitizeError ?r) = Some c1"
    and m1: "names_credential (fst (?ctx ! 1)) \<longrightarrow> c1 ! 1 = (fst (?ctx ! 1), Str ''***'')"
    by blast
  from sanitizeError_masks_top_level [OF c i2]
  obtain c2 where a2: "err_context (sanitizeError ?r) = Some c2"
    and m2: "names_credential (fst (?ctx ! 2)) \<longrightarrow> c2 ! 2 = (fst (?ctx ! 2), Str ''***'')"
    by blast
  from a0 a1 a2 have same: "c1 = c0" "c2 = c0" by simp_all
  from u0 k0 have e0: "c0 ! 0 = (''node'', Obj [(''url'', Str ''https://es:9200'')])" by simp
  from m1 k1 same have e1: "c0 ! 1 = (''Password'', Str ''***'')" by simp
  from m2 k2 same have e2: "c0 ! 2 = (''auth'', Str ''***'')" by simp
  from l0 have "length c0 = 3" using length_map[of fst c0] by simp
  then obtain x y z where xyz: "c0 = [x, y, z]"
    by (cases c0; cases "tl c0"; cases "tl (tl c0)") auto
  with e0 e1 e2 have "c0 = [(''node'', Obj [(''url'', Str ''https://es:9200'')]),
                            (''Password'', Str ''***''), (''auth'', Str ''***'')]"
    by simp
  with a0 rest have "sanitizeError ?r = ?r\<lparr>err_context :=
      Some [(''node'', Obj [(''url'', Str ''https://es:9200'')]), (''Password'', Str ''***''), (''auth'', Str ''***'')]\<rparr>"
    by simp
  then show ?thesis by (simp add: ConnectionError_def)
qed

text \<open>
  Claim C9 as stated fails. A sensitive key below the top level of the context keeps
  its value when the top-level key above it is not sensitive: the arguments that a tool
  attaches to its \<^verbatim>\<open>ElasticsearchError\<close> are such a nested object. And the key
  \<^verbatim>\<open>apiKey\<close> keeps its value even at the top level.
\<close>

theorem sanitizeError_counterexample:
  "err_context (sanitizeError (handleError ''2024-05-06T07:08:09.123Z''
      (ElasticsearchError ''Failed to insert document into Elasticsearch''
         (Some (Error ''ResponseError'' ''mapper_parsing_exception''))
         (Some [(''args'', Obj [(''index'', Str ''users''),
                                (''document'', Obj [(''password'', Str ''hunter2'')])])]))
      (Some ''call-tool'')))
     = Some [(''args'', Obj [(''index'', Str ''users''),
                             (''document'', Obj [(''password'', Str ''hunter2'')])]),
             (''originalError'', Obj [(''name'', Str ''ResponseError''),
                                      (''message'', Str ''mapper_parsing_exception'')])]
   \<and> err_context (sanitizeError (handleError ''2024-05-06T07:08:09.123Z''
      (ConnectionError ''cannot connect'' (Some [(''apiKey'', Str ''k-123'')])) (Some ''call-tool'')))
     = Some [(''apiKey'', Str ''k-123'')]"
  by code_simp

subsection \<open>The output filename\<close>

lemma collapse_underscores_set: "set (collapse_underscores s) \<subseteq> set s"
  by (induction s rule: collapse_underscores.induct) auto

lemma collapse_underscores_head: "\<exists>t. collapse_underscores (a # s) = a # t"
  by (induction "a # s" arbitrary: a s rule: collapse_underscores.induct) auto

lemma collapse_underscores_single: "\<not> has_double_underscore (collapse_underscores s)"
proof (induction s rule: collapse_underscores.induct)
  case (1 a b rest)
  obtain t where t: "collapse_underscores (b # rest) = b # t"
    using collapse_underscores_head by blast
  with 1 show ?case by (auto split: if_splits)
qed simp_all

lemma collapse_underscores_clean: "\<not> has_double_underscore s \<Longrightarrow> collapse_underscores s = s"
  by (induction s rule: collapse_underscores.induct) auto

lemma collapse_underscores_others:
  "filter (\<lambda>c. c \<noteq> CHR ''_'') (collapse_underscores s) = filter (\<lambda>c. c \<noteq> CHR ''_'') s"
  by (induction s rule: collapse_underscores.induct) auto

lemma has_double_underscore_csv: "has_double_underscore (s @ ''.csv'') = has_double_underscore s"
  by (induction s rule: has_double_underscore.induct) simp_all

lemma filename_char_underscore: "filename_char CHR ''_''"
  by (simp add: filename_char_def)

lemma filename_char_csv: "list_all filename_char ''.csv''"
  by (simp add: filename_char_def)

lemma replaced_all_allowed:
  "list_all filename_char (collapse_underscores (map (\<lambda>c. if filename_char c then c else CHR ''_'') name))"
proof -
  have "set (map (\<lambda>c. if filename_char c then c else CHR ''_'') name) \<subseteq> Collect filename_char"
    by (auto simp: filename_char_underscore)
  with collapse_underscores_set
  have "set (collapse_underscores (map (\<lambda>c. if filename_char c then c else CHR ''_'') name))
          \<subseteq> Collect filename_char"
    by blast
  then show ?thesis by (auto simp: list_all_iff)
qed

lemma replaced_others:
  "filter (\<lambda>c. c \<noteq> CHR ''_'') (map (\<lambda>c. if filename_char c then c else CHR ''_'') name)
     = filter (\<lambda>c. filename_char c \<and> c \<noteq> CHR ''_'') name"
  by (induction name) auto

lemma split_on_first: "c \<notin> set day \<Longrightarrow> split_on c (day @ c # rest) = day # split_on c rest"
  by (induction day) auto

lemma export_timestamp_day:
  "list_all (\<lambda>c. c \<noteq> CHR ''T'' \<and> c \<noteq> CHR '':'' \<and> c \<noteq> CHR ''.'') day \<Longrightarrow>
   export_timestamp (day @ CHR ''T'' # rest) = day"
proof -
  assume a: "list_all (\<lambda>c. c \<noteq> CHR ''T'' \<and> c \<noteq> CHR '':'' \<and> c \<noteq> CHR ''.'') day"
  then have m: "map (\<lambda>c. if c = CHR '':'' \<or> c = CHR ''.'' then CHR ''-'' else c) day = day"
    by (induction day) auto
  from a have "CHR ''T'' \<notin> set day" by (auto simp: list_all_iff)
  then show ?thesis
    by (simp add: export_timestamp_def m split_on_first)
qed

text \<open>
  Claim C8, as amended. When the caller supplies a non-empty filename, the output
  filename is that name with every character outside \<^verbatim>\<open>[A-Za-z0-9._-]\<close> replaced by an
  underscore (not removed) and every run of underscores collapsed into one, with
  \<^verbatim>\<open>.csv\<close> appended unless the result already ends with it. So it consists of allowed
  characters only, ends with \<^verbatim>\<open>.csv\<close>, has no two underscores in a row, keeps the
  allowed characters other than underscores in their order, and a name that is already
  of this form is returned as it is. When no filename (or the empty one) is supplied the
  name is \<^verbatim>\<open><index>_export_<date>.csv\<close>, the date being the part of the ISO time before
  \<^verbatim>\<open>T\<close>.
\<close>

theorem generateFilename_result:
  "(arg_filename args = Some name \<and> name \<noteq> [] \<longrightarrow>
      (let base = collapse_underscores (map (\<lambda>c. if filename_char c then c else CHR ''_'') name)
       in generateFilename now args = (if endsWith base ''.csv'' then base else base @ ''.csv'')
          \<and> filter (\<lambda>c. c \<noteq> CHR ''_'') base = filter (\<lambda>c. filename_char c \<and> c \<noteq> CHR ''_'') name)
      \<and> list_all filename_char (generateFilename now args)
      \<and> endsWith (generateFilename now args) ''.csv''
      \<and> \<not> has_double_underscore (generateFilename now args)
      \<and> (list_all filename_char name \<and> \<not> has_double_underscore name \<and> endsWith name ''.csv''
           \<longrightarrow> generateFilename now args = name))
   \<and> (arg_filename args = None \<or> arg_filename args = Some [] \<longrightarrow>
        generateFilename now args = arg_index args @ ''_export_'' @ export_timestamp now @ ''.csv''
        \<and> (\<forall>day rest. now = day @ CHR ''T'' # rest
               \<and> list_all (\<lambda>c. c \<noteq> CHR ''T'' \<and> c \<noteq> CHR '':'' \<and> c \<noteq> CHR ''.'') day
             \<longrightarrow> generateFilename now args = arg_index args @ ''_export_'' @ day @ ''.csv''))"
proof -
  let ?base = "collapse_underscores (map (\<lambda>c. if filename_char c then c else CHR ''_'') name)"
  let ?out = "if endsWith ?base ''.csv'' then ?base else ?base @ ''.csv''"
  have allowed: "list_all filename_char ?out"
    using replaced_all_allowed[of name] filename_char_csv by simp
  have ends: "endsWith ?out ''.csv''"
    by (auto simp: endsWith_def suffix_def)
  have single: "\<not> has_double_underscore ?out"
    using collapse_underscores_single[of "map (\<lambda>c. if filename_char c then c else CHR ''_'') name"]
    by (simp add: has_double_underscore_csv)
  have kept: "filter (\<lambda>c. c \<noteq> CHR ''_'') ?base = filter (\<lambda>c. filename_char c \<and> c \<noteq> CHR ''_'') name"
    by (simp add: collapse_underscores_others replaced_others)
  have clean: "?out = name"
    if "list_all filename_char name" "\<not> has_double_underscore name" "endsWith name ''.csv''"
  proof -
    from that(1) have "map (\<lambda>c. if filename_char c then c else CHR ''_'') name = name"
      by (induction name) auto
    with that(2,3) show ?thesis by (simp add: collapse_underscores_clean)
  qed
  have supplied: "generateFilename now args = ?out" if "arg_filename args = Some name" "name \<noteq> []"
    using that by (simp add: generateFilename_def Let_def)
  have synthesized:
    "generateFilename now args = arg_index args @ ''_export_'' @ export_timestamp now @ ''.csv''"
    if "arg_filename args = None \<or> arg_filename args = Some []"
    using that by (auto simp: generateFilename_def)
  show ?thesis
    using allowed ends single kept clean supplied synthesized
    by (auto simp: Let_def export_timestamp_day)
qed
theorem generateFilename_result_witness:
  "generateFilename ''2024-05-06T07:08:09.123Z''
      ((sample_args None)\<lparr>arg_filename := Some ''my report (v2)!!.CSV''\<rparr>) = ''my_report_v2_.CSV.csv''
   \<and> generateFilename ''2024-05-06T07:08:09.123Z'' (sample_args None) = ''logs_export_2024-05-06.csv''"
proof -
  let ?now = "''2024-05-06T07:08:09.123Z''"
  let ?args = "(sample_args None)\<lparr>arg_filename := Some ''my report (v2)!!.CSV''\<rparr>"
  have base: "collapse_underscores (map (\<lambda>c. if filename_char c then c else CHR ''_'') ''my report (v2)!!.CSV'')
                = ''my_report_v2_.CSV''"
    by code_simp
  have no_csv: "\<not> endsWith ''my_report_v2_.CSV'' ''.csv''"
    by code_simp
  have f: "arg_filename ?args = Some ''my report (v2)!!.CSV''"
    by simp
  from generateFilename_result [of ?args "''my report (v2)!!.CSV''" ?now] f
  have "generateFilename ?now ?args
          = (if endsWith (collapse_underscores (map (\<lambda>c. if filename_char c then c else CHR ''_'') ''my report (v2)!!.CSV'')) ''.csv''
             then collapse_underscores (map (\<lambda>c. if filename_char c then c else CHR ''_'') ''my report (v2)!!.CSV'')
             else collapse_underscores (map (\<lambda>c. if filename_char c then c else CHR ''_'') ''my report (v2)!!.CSV'') @ ''.csv'')"
    unfolding Let_def by blast
  then have "generateFilename ?now ?args = ''my_report_v2_.CSV'' @ ''.csv''"
    unfolding base using no_csv by (simp only: if_False)
  then have 1: "generateFilename ?now ?args = ''my_report_v2_.CSV.csv''"
    by simp
  have n: "arg_filename (sample_args None) = None" "arg_index (sample_args None) = ''logs''"
    by (simp_all add: sample_args_def)
  have d: "?now = ''2024-05-06'' @ CHR ''T'' # ''07:08:09.123Z''"
    by simp
  have l: "list_all (\<lambda>c. c \<noteq> CHR ''T'' \<and> c \<noteq> CHR '':'' \<and> c \<noteq> CHR ''.'') ''2024-05-06''"
    by simp
  from generateFilename_result [of "sample_args None" "[]" ?now] n(1)
  have "\<forall>day rest. ?now = day @ CHR ''T'' # rest
               \<and> list_all (\<lambda>c. c \<noteq> CHR ''T'' \<and> c \<noteq> CHR '':'' \<and> c \<noteq> CHR ''.'') day
             \<longrightarrow> generateFilename ?now (sample_args None) = arg_index (sample_args None) @ ''_export_'' @ day @ ''.csv''"
    by blast
  with d l have "generateFilename ?now (sample_args None)
                   = arg_index (sample_args None) @ ''_export_'' @ ''2024-05-06'' @ ''.csv''"
    by blast
  with n(2) have 2: "generateFilename ?now (sample_args None) = ''logs_export_2024-05-06.csv''"
    by simp
  from 1 2 show ?thesis by simp
qed

text \<open>
  Claim C8 as stated fails. A character outside the class is not stripped from the
  name but replaced: the supplied name \<^verbatim>\<open>a b\<close> becomes \<^verbatim>\<open>a_b.csv\<close>, whereas the name
  with the space stripped is \<^verbatim>\<open>ab\<close>.
\<close>

theorem generateFilename_strip_counterexample:
  "generateFilename ''2024-05-06T07:08:09.123Z'' ((sample_args None)\<lparr>arg_filename := Some ''a b''\<rparr>)
     = ''a_b.csv''
   \<and> filter filename_char ''a b'' = ''ab''"
  by code_simp

subsection \<open>Field discovery\<close>

lemma determineFields_explicit:
  "arg_fields args = Some flds \<Longrightarrow> flds \<noteq> [] \<Longrightarrow> determineFields c args = Inr flds"
  by (simp add: determineFields_def)

lemma determineFields_from_mapping:
  "determineFields
     (discovery_client
        (Inr (Obj [(''logs'', Obj [(''mappings'', Obj [(''properties'',
           Obj [(''title'', Obj [(''type'', Str ''text'')]),
                (''price'', Obj [(''type'', Str ''float'')]),
                (''a'', Obj [(''properties'', Obj [(''b'', Obj [(''type'', Str ''long'')])])])])])])]))
        (\<lambda>n. Inr (sample_page 0 None)))
     ((sample_args None)\<lparr>arg_fields := None\<rparr>) = Inr [''title'', ''price'', ''a.b'']"
  by code_simp

lemma determineFields_from_sample:
  "determineFields
     (discovery_client (Inr (Obj [(''logs'', Obj [(''mappings'', Obj [])])]))
        (\<lambda>n. Inr \<lparr>resp_hits = [Obj [(''x'', Num 1), (''y'', Obj [(''z'', Num 2)])]],
                     resp_scroll_id = None\<rparr>))
     ((sample_args None)\<lparr>arg_fields := None\<rparr>) = Inr [''x'', ''y'']"
  by code_simp

text \<open>
  Claim C5 fails on the code. When the mapping lookup succeeds but lists no properties
  and the sample search returns no hit, \<^verbatim>\<open>determineFields\<close> returns the empty field list.
  The \<^verbatim>\<open>ValidationError\<close> is thrown only on the sibling path, where the mapping lookup
  itself has thrown before the empty sample.
\<close>

theorem determineFields_empty_result:
  "determineFields
     (discovery_client
        (Inr (Obj [(''logs'', Obj [(''mappings'', Obj [])])]))
        (\<lambda>n. Inr (sample_page 0 None)))
     ((sample_args None)\<lparr>arg_fields := None\<rparr>) = Inr []
   \<and> determineFields
     (discovery_client
        (Inl (Error ''ResponseError'' ''index_not_found_exception''))
        (\<lambda>n. Inr (sample_page 0 None)))
     ((sample_args None)\<lparr>arg_fields := None\<rparr>)
     = Inl (ValidationError ''Could not determine fields to export and no fields specified'' None)"
  by code_simp

end
